theory Spec2Isabelle
  imports Complex_Main "HOL-Library.Char_ord" "HOL-Library.List_Lexorder" "HOL-Library.Word"
    "HOL-Library.Log_Nat"
begin

section \<open>Python library functions used by the scripts\<close>

text \<open>
  Strings are byte strings; names compare lexicographically by character code, as Python's
  \<^verbatim>\<open>str\<close> comparison does (for UTF-8 text the byte order and the code-point order agree).
  \<^verbatim>\<open>str.isspace\<close>, \<^verbatim>\<open>str.strip\<close> and \<^verbatim>\<open>str.lower\<close> are modelled on the ASCII range.
\<close>

definition isspace :: "char \<Rightarrow> bool" where
  "isspace c = ((of_char c :: nat) \<in> {9, 10, 11, 12, 13, 28, 29, 30, 31, 32})"

definition strip :: "string \<Rightarrow> string" where
  "strip s = rev (dropWhile isspace (rev (dropWhile isspace s)))"

definition lower_char :: "char \<Rightarrow> char" where
  "lower_char c = (if CHR ''A'' \<le> c \<and> c \<le> CHR ''Z'' then char_of (of_char c + (32::nat)) else c)"

definition lower :: "string \<Rightarrow> string" where
  "lower s = map lower_char s"

text \<open>
  The exceptions that escape the modelled functions, or that they catch. \<open>PillowError\<close> stands
  for the exception Pillow raises when it cannot build or save an image.
\<close>

datatype error =
  OSError | AttributeError | TypeError | ValueError | IndexError | KeyError | OverflowError
  | PillowError

text \<open>
  A Python \<^verbatim>\<open>dict\<close> is an association list in insertion order: storing under a key that is
  present replaces the value in place, storing under a new key appends.
\<close>

fun dict_set :: "('k \<times> 'v) list \<Rightarrow> 'k \<Rightarrow> 'v \<Rightarrow> ('k \<times> 'v) list" where
  "dict_set [] k v = [(k, v)]"
| "dict_set ((k', v') # d) k v = (if k' = k then (k', v) # d else (k', v') # dict_set d k v)"

definition dict_get :: "('k \<times> 'v) list \<Rightarrow> 'k \<Rightarrow> 'v option" where
  "dict_get d k = map_of d k"

section \<open>GeometryConverter: \<^verbatim>\<open>scripts/convert_yolo_to_csv.py\<close>, \<^verbatim>\<open>scripts/generate_json_annotations.py\<close>\<close>

text \<open>
  A Python \<^verbatim>\<open>float\<close> is an IEEE binary64 number. A finite one is modelled by its real value, and
  every float operation returns its exact result rounded to the nearest double, ties to the even
  significand: \<open>round_double\<close>, with a significand of 53 bits for a result of magnitude \<^verbatim>\<open>2**-1022\<close>
  or more and multiples of \<^verbatim>\<open>2**-1074\<close> below. Infinities and \<^verbatim>\<open>nan\<close> have no value in the model:
  operands are finite and a float result stays below \<^verbatim>\<open>2**1024\<close> in magnitude.
\<close>

definition pow2 :: "int \<Rightarrow> real" where
  "pow2 k = (if 0 \<le> k then 2 ^ nat k else 1 / 2 ^ nat (- k))"

text \<open>The binary exponent of a positive real: \<open>pow2 (exponent a) \<le> a < pow2 (exponent a + 1)\<close>.\<close>

definition exponent :: "real \<Rightarrow> int" where
  "exponent a =
     (if 1 \<le> a then bitlen \<lfloor>a\<rfloor> - 1
      else (let k = bitlen \<lfloor>1 / a\<rfloor> - 1 in if a = pow2 (- k) then - k else - k - 1))"

definition round_half_even :: "real \<Rightarrow> int" where
  "round_half_even t =
     (let f = \<lfloor>t\<rfloor>; d = t - of_int f
      in if d < 1 / 2 then f else if 1 / 2 < d then f + 1 else if even f then f else f + 1)"

definition round_double :: "real \<Rightarrow> real" where
  "round_double r =
     (if r = 0 then 0
      else (let q = pow2 (max (exponent \<bar>r\<bar>) (- 1022) - 52)
            in of_int (round_half_even (r / q)) * q))"

text \<open>
  The numbers of the conversion are Python \<^verbatim>\<open>int\<close>s and \<^verbatim>\<open>float\<close>s. An operation on two \<^verbatim>\<open>int\<close>s
  is exact; an operation with a \<^verbatim>\<open>float\<close> converts an \<^verbatim>\<open>int\<close> operand to the nearest double
  (\<^verbatim>\<open>OverflowError\<close> when that is out of range) and rounds its result. Comparisons are exact.
\<close>

datatype pynum = PyInt int | PyFloat real

definition num_value :: "pynum \<Rightarrow> real" where
  "num_value a = (case a of PyInt i \<Rightarrow> of_int i | PyFloat r \<Rightarrow> r)"

text \<open>
  A rounded result of magnitude \<^verbatim>\<open>2**1024\<close> or more is out of the range of the doubles; the test
  is on the binary exponent.
\<close>

definition out_of_range :: "real \<Rightarrow> bool" where
  "out_of_range r = (r \<noteq> 0 \<and> 1024 \<le> exponent \<bar>r\<bar>)"

definition to_float :: "pynum \<Rightarrow> error + real" where
  "to_float a =
     (case a of
        PyFloat r \<Rightarrow> Inr r
      | PyInt i \<Rightarrow>
          if out_of_range (round_double (of_int i)) then Inl OverflowError
          else Inr (round_double (of_int i)))"

definition float_op :: "(real \<Rightarrow> real \<Rightarrow> real) \<Rightarrow> pynum \<Rightarrow> pynum \<Rightarrow> error + pynum" where
  "float_op f a b =
     (case to_float a of Inl e \<Rightarrow> Inl e | Inr u \<Rightarrow>
     (case to_float b of Inl e \<Rightarrow> Inl e | Inr v \<Rightarrow>
      Inr (PyFloat (round_double (f u v)))))"

definition py_mul :: "pynum \<Rightarrow> pynum \<Rightarrow> error + pynum" where
  "py_mul a b =
     (case (a, b) of (PyInt i, PyInt j) \<Rightarrow> Inr (PyInt (i * j)) | _ \<Rightarrow> float_op (\<lambda>u v. u * v) a b)"

definition py_sub :: "pynum \<Rightarrow> pynum \<Rightarrow> error + pynum" where
  "py_sub a b =
     (case (a, b) of (PyInt i, PyInt j) \<Rightarrow> Inr (PyInt (i - j)) | _ \<Rightarrow> float_op (\<lambda>u v. u - v) a b)"

text \<open>\<^verbatim>\<open>a / 2\<close> for a \<^verbatim>\<open>float\<close> \<open>a\<close>.\<close>

definition py_half :: "pynum \<Rightarrow> error + pynum" where
  "py_half a = float_op (\<lambda>u v. u / v) a (PyInt 2)"

text \<open>
  \<^verbatim>\<open>min(a, b)\<close> is \<open>b\<close> when \<^verbatim>\<open>b < a\<close> and \<open>a\<close> otherwise; \<^verbatim>\<open>max(a, b)\<close> is \<open>b\<close> when \<^verbatim>\<open>b > a\<close> and
  \<open>a\<close> otherwise. \<^verbatim>\<open>int(v)\<close> on a \<^verbatim>\<open>float\<close> truncates towards zero.
\<close>

definition py_min :: "pynum \<Rightarrow> pynum \<Rightarrow> pynum" where
  "py_min a b = (if num_value b < num_value a then b else a)"

definition py_max :: "pynum \<Rightarrow> pynum \<Rightarrow> pynum" where
  "py_max a b = (if num_value a < num_value b then b else a)"

definition py_int :: "real \<Rightarrow> int" where
  "py_int v = (if 0 \<le> v then \<lfloor>v\<rfloor> else \<lceil>v\<rceil>)"

text \<open>
  \<^verbatim>\<open>yolo_to_absolute(yolo_bbox, img_width, img_height)\<close>: the box is
  \<open>(class_id, center_x, center_y, width, height)\<close>, all five read with \<^verbatim>\<open>float\<close>; the image
  size is the pair of \<^verbatim>\<open>int\<close>s PIL reports. The result is \<open>(x, y, width_abs, height_abs, label)\<close>.
\<close>

definition yolo_to_absolute ::
  "real \<times> real \<times> real \<times> real \<times> real \<Rightarrow> int \<Rightarrow> int
   \<Rightarrow> error + pynum \<times> pynum \<times> pynum \<times> pynum \<times> int" where
  "yolo_to_absolute yolo_bbox img_width img_height =
     (case yolo_bbox of (class_id, center_x, center_y, width, height) \<Rightarrow>
     (case py_mul (PyFloat center_x) (PyInt img_width) of Inl e \<Rightarrow> Inl e | Inr center_x_abs \<Rightarrow>
     (case py_mul (PyFloat center_y) (PyInt img_height) of Inl e \<Rightarrow> Inl e | Inr center_y_abs \<Rightarrow>
     (case py_mul (PyFloat width) (PyInt img_width) of Inl e \<Rightarrow> Inl e | Inr width_abs \<Rightarrow>
     (case py_mul (PyFloat height) (PyInt img_height) of Inl e \<Rightarrow> Inl e | Inr height_abs \<Rightarrow>
     (case py_half width_abs of Inl e \<Rightarrow> Inl e | Inr half_width \<Rightarrow>
     (case py_sub center_x_abs half_width of Inl e \<Rightarrow> Inl e | Inr x0 \<Rightarrow>
     (case py_half height_abs of Inl e \<Rightarrow> Inl e | Inr half_height \<Rightarrow>
     (case py_sub center_y_abs half_height of Inl e \<Rightarrow> Inl e | Inr y0 \<Rightarrow>
     (let x = py_max (PyInt 0) (py_min x0 (PyInt (img_width - 1)));
          y = py_max (PyInt 0) (py_min y0 (PyInt (img_height - 1)))
      in (case py_sub (PyInt img_width) x of Inl e \<Rightarrow> Inl e | Inr room_x \<Rightarrow>
         (case py_sub (PyInt img_height) y of Inl e \<Rightarrow> Inl e | Inr room_y \<Rightarrow>
          Inr (x, y, py_min width_abs room_x, py_min height_abs room_y,
               py_int class_id + 1)))))))))))))"

text \<open>
  The body of the loop of \<^verbatim>\<open>parse_yolo_annotation\<close> for one line with at least five fields:
  \<open>class_id\<close> is \<^verbatim>\<open>int(parts[0])\<close>, the four others are read with \<^verbatim>\<open>float\<close>. The result is
  \<open>(category_id, x, y, w, h, area)\<close>, all \<^verbatim>\<open>int\<close>s; the annotation's \<open>id\<close> is random, \<open>image_id\<close> is
  set by the caller and \<open>iscrowd\<close> is \<open>0\<close>. An exception ends the loop of the caller.
\<close>

definition parse_yolo_annotation_bbox ::
  "int \<Rightarrow> real \<Rightarrow> real \<Rightarrow> real \<Rightarrow> real \<Rightarrow> int \<Rightarrow> int
   \<Rightarrow> error + int \<times> int \<times> int \<times> int \<times> int \<times> int" where
  "parse_yolo_annotation_bbox class_id center_x center_y width height image_width image_height =
     (case py_half (PyFloat width) of Inl e \<Rightarrow> Inl e | Inr half_width \<Rightarrow>
     (case py_sub (PyFloat center_x) half_width of Inl e \<Rightarrow> Inl e | Inr x_rel \<Rightarrow>
     (case py_mul x_rel (PyInt image_width) of Inl e \<Rightarrow> Inl e | Inr x0 \<Rightarrow>
     (case py_half (PyFloat height) of Inl e \<Rightarrow> Inl e | Inr half_height \<Rightarrow>
     (case py_sub (PyFloat center_y) half_height of Inl e \<Rightarrow> Inl e | Inr y_rel \<Rightarrow>
     (case py_mul y_rel (PyInt image_height) of Inl e \<Rightarrow> Inl e | Inr y0 \<Rightarrow>
     (case py_mul (PyFloat width) (PyInt image_width) of Inl e \<Rightarrow> Inl e | Inr w0 \<Rightarrow>
     (case py_mul (PyFloat height) (PyInt image_height) of Inl e \<Rightarrow> Inl e | Inr h0 \<Rightarrow>
     (let category_id = class_id + 1;
          x = max 0 (min (py_int (num_value x0)) (image_width - 1));
          y = max 0 (min (py_int (num_value y0)) (image_height - 1));
          w = min (py_int (num_value w0)) (image_width - x);
          h = min (py_int (num_value h0)) (image_height - y)
      in Inr (category_id, x, y, w, h, w * h))))))))))"

section \<open>SchemaResolver: \<^verbatim>\<open>_parse_csv_boxes\<close> of \<^verbatim>\<open>scripts/convert_to_coco.py\<close>\<close>

text \<open>
  The per-image CSV file: it does not exist, or it exists and cannot be opened
  (\<^verbatim>\<open>csv_path.open\<close> raises, and nothing in \<^verbatim>\<open>_parse_csv_boxes\<close> catches it), or it is read as
  the list of rows \<^verbatim>\<open>csv.reader\<close> yields, each a list of cells.
\<close>

datatype csv_file = Missing | Unreadable | Rows "string list list"

text \<open>
  The values of a row dictionary of \<^verbatim>\<open>csv.DictReader\<close>: a cell, the list of surplus cells stored
  under \<^verbatim>\<open>restkey\<close> (\<^verbatim>\<open>None\<close>), or \<^verbatim>\<open>restval\<close> (\<^verbatim>\<open>None\<close>) for a cell the row lacks.
\<close>

datatype cell = Str string | Lst "string list" | NoneVal

text \<open>
  \<^verbatim>\<open>DictReader.__next__\<close>: \<^verbatim>\<open>d = dict(zip(self.fieldnames, row))\<close>, then the surplus cells under
  the key \<^verbatim>\<open>None\<close>, or \<^verbatim>\<open>None\<close> under every field name the row is too short for.
\<close>

definition dictreader_row :: "'k list \<Rightarrow> string list \<Rightarrow> ('k option \<times> cell) list" where
  "dictreader_row fieldnames row =
     (let d = foldl (\<lambda>d (k, v). dict_set d (Some k) (Str v)) [] (zip fieldnames row);
          lf = length fieldnames;
          lr = length row
      in if lf < lr then dict_set d None (Lst (drop lf row))
         else if lf > lr then foldl (\<lambda>d k. dict_set d (Some k) NoneVal) d (drop lr fieldnames)
         else d)"

text \<open>
  \<^verbatim>\<open>row_lower = {k.lower(): v for k, v in row.items()}\<close>, built in the order of the row's items;
  \<^verbatim>\<open>None.lower()\<close> raises \<^verbatim>\<open>AttributeError\<close>.
\<close>

fun lower_keys :: "(string option \<times> cell) list \<Rightarrow> (string \<times> cell) list \<Rightarrow> error + (string \<times> cell) list" where
  "lower_keys [] row_lower = Inr row_lower"
| "lower_keys ((None, v) # items) row_lower = Inl AttributeError"
| "lower_keys ((Some k, v) # items) row_lower = lower_keys items (dict_set row_lower (lower k) v)"

text \<open>
  The local function \<^verbatim>\<open>get(key_variants)\<close>. Python's \<^verbatim>\<open>float\<close> is the parameter \<open>pyfloat\<close>:
  \<open>None\<close> where \<^verbatim>\<open>float\<close> raises \<^verbatim>\<open>ValueError\<close>, which \<^verbatim>\<open>get\<close> catches. \<^verbatim>\<open>float\<close> of a list
  raises \<^verbatim>\<open>TypeError\<close>, which it does not catch.
\<close>

fun get :: "(string \<Rightarrow> real option) \<Rightarrow> (string \<times> cell) list \<Rightarrow> string list \<Rightarrow> error + real option" where
  "get pyfloat row_lower [] = Inr None"
| "get pyfloat row_lower (key # key_variants) =
     (case dict_get row_lower key of
        None \<Rightarrow> get pyfloat row_lower key_variants
      | Some NoneVal \<Rightarrow> get pyfloat row_lower key_variants
      | Some (Lst l) \<Rightarrow> Inl TypeError
      | Some (Str s) \<Rightarrow>
          (if s = [] then get pyfloat row_lower key_variants
           else (case pyfloat s of
                   Some v \<Rightarrow> Inr (Some v)
                 | None \<Rightarrow> get pyfloat row_lower key_variants)))"

record box =
  box_x :: real
  box_y :: real
  box_width :: real
  box_height :: real

text \<open>The body of \<^verbatim>\<open>for row in reader\<close> for one row dictionary: the boxes after the row.\<close>

definition parse_row :: "(string \<Rightarrow> real option) \<Rightarrow> (string option \<times> cell) list \<Rightarrow> box list \<Rightarrow> error + box list" where
  "parse_row pyfloat row boxes =
     (case lower_keys row [] of Inl e \<Rightarrow> Inl e | Inr row_lower \<Rightarrow>
      case get pyfloat row_lower [''x'', ''xc'', ''x_center''] of Inl e \<Rightarrow> Inl e | Inr x \<Rightarrow>
      case get pyfloat row_lower [''y'', ''yc'', ''y_center''] of Inl e \<Rightarrow> Inl e | Inr y \<Rightarrow>
      case get pyfloat row_lower [''w'', ''width'', ''dx''] of Inl e \<Rightarrow> Inl e | Inr w \<Rightarrow>
      case get pyfloat row_lower [''h'', ''height'', ''dy''] of Inl e \<Rightarrow> Inl e | Inr h \<Rightarrow>
      (case (x, y, w, h) of
         (Some x, Some y, Some w, Some h) \<Rightarrow>
           Inr (boxes @ [\<lparr>box_x = x, box_y = y, box_width = w, box_height = h\<rparr>])
       | _ \<Rightarrow> Inr boxes))"

text \<open>The loop over the reader; \<^verbatim>\<open>DictReader\<close> skips the rows that are \<^verbatim>\<open>[]\<close>.\<close>

fun parse_rows :: "(string \<Rightarrow> real option) \<Rightarrow> string list \<Rightarrow> string list list \<Rightarrow> box list \<Rightarrow> error + box list" where
  "parse_rows pyfloat fieldnames [] boxes = Inr boxes"
| "parse_rows pyfloat fieldnames (row # rows) boxes =
     (if row = [] then parse_rows pyfloat fieldnames rows boxes
      else (case parse_row pyfloat (dictreader_row fieldnames row) boxes of
              Inl e \<Rightarrow> Inl e
            | Inr boxes' \<Rightarrow> parse_rows pyfloat fieldnames rows boxes'))"

text \<open>
  \<^verbatim>\<open>_parse_csv_boxes(csv_path)\<close>. \<^verbatim>\<open>reader.fieldnames\<close> is the first row of the file, and
  \<^verbatim>\<open>None\<close> when the file has no row at all.
\<close>

definition parse_csv_boxes :: "(string \<Rightarrow> real option) \<Rightarrow> csv_file \<Rightarrow> error + box list" where
  "parse_csv_boxes pyfloat csv_path =
     (case csv_path of
        Missing \<Rightarrow> Inr []
      | Unreadable \<Rightarrow> Inl OSError
      | Rows [] \<Rightarrow> Inr []
      | Rows (fieldnames # rows) \<Rightarrow> parse_rows pyfloat fieldnames rows [])"

text \<open>
  An instance of the parameter \<open>pyfloat\<close> for the examples: it agrees with \<^verbatim>\<open>float\<close> on an optional
  minus sign followed by ASCII digits whose value is below \<^verbatim>\<open>2**1024\<close> (\<^verbatim>\<open>float("-5")\<close> is \<open>-5.0\<close>).
  On any other string it answers \<open>None\<close>, which is \<^verbatim>\<open>float\<close> only where \<^verbatim>\<open>float\<close> raises \<^verbatim>\<open>ValueError\<close>; the
  examples keep to cells of the first kind.
\<close>

fun digits_value :: "string \<Rightarrow> nat \<Rightarrow> nat option" where
  "digits_value [] acc = Some acc"
| "digits_value (c # cs) acc =
     (if CHR ''0'' \<le> c \<and> c \<le> CHR ''9''
      then digits_value cs (10 * acc + (of_char c - of_char CHR ''0''))
      else None)"

definition float_of_digits :: "string \<Rightarrow> real option" where
  "float_of_digits s =
     (case s of
        [] \<Rightarrow> None
      | c # cs \<Rightarrow>
          if c = CHR ''-''
          then (if cs = [] then None
                else map_option (\<lambda>n. - round_double (real n)) (digits_value cs 0))
          else map_option (\<lambda>n. round_double (real n)) (digits_value s 0))"

section \<open>RecordAssembler: \<^verbatim>\<open>_collect_annotations_for_split\<close> of \<^verbatim>\<open>scripts/convert_to_coco.py\<close>\<close>

text \<open>
  An image file under \<^verbatim>\<open>images/\<close>: absent, present but not decodable by PIL (\<^verbatim>\<open>Image.open\<close>
  raises), or a picture with its width and height.
\<close>

datatype image_file = NoFile | BadImage | Picture int int

text \<open>
  What the function reads below \<^verbatim>\<open>category_root\<close>: the directory's own name (file names are
  relative to its parent), the lines of \<^verbatim>\<open>sets/<split>.txt\<close> when the file exists, the stems
  matched by the two globs on \<^verbatim>\<open>images/\<close>, the image files by name and the CSV files by name.
\<close>

record category_dir =
  dir_name :: string
  sets_file :: "string \<Rightarrow> string list option"
  jpg_glob :: "string list"
  png_glob :: "string list"
  image_at :: "string \<Rightarrow> image_file"
  csv_at :: "string \<Rightarrow> csv_file"

definition read_split_list :: "string list option \<Rightarrow> string list" where
  "read_split_list split_file =
     (case split_file of
        None \<Rightarrow> []
      | Some lines \<Rightarrow> filter (\<lambda>line. line \<noteq> []) (map strip lines))"

definition image_size :: "image_file \<Rightarrow> error + int \<times> int" where
  "image_size image_path =
     (case image_path of Picture w h \<Rightarrow> Inr (w, h) | BadImage \<Rightarrow> Inl OSError | NoFile \<Rightarrow> Inl OSError)"

text \<open>
  The dictionaries of the three lists; the fields are the COCO keys \<^verbatim>\<open>id\<close>, \<^verbatim>\<open>file_name\<close>,
  \<^verbatim>\<open>width\<close>, \<^verbatim>\<open>height\<close>; \<^verbatim>\<open>id\<close>, \<^verbatim>\<open>image_id\<close>, \<^verbatim>\<open>category_id\<close>, \<^verbatim>\<open>bbox\<close>, \<^verbatim>\<open>area\<close>,
  \<^verbatim>\<open>iscrowd\<close>; \<^verbatim>\<open>id\<close>, \<^verbatim>\<open>name\<close>, \<^verbatim>\<open>supercategory\<close>.
\<close>

record image =
  img_id :: nat
  img_file_name :: string
  img_width :: int
  img_height :: int

record annotation =
  ann_id :: nat
  ann_image_id :: nat
  ann_category_id :: nat
  ann_bbox :: "real list"
  ann_area :: real
  ann_iscrowd :: nat

record category =
  cat_id :: nat
  cat_name :: string
  cat_supercategory :: string

text \<open>The stems the loop runs over: the split list, or every globbed image when it is empty.\<close>

definition image_stems :: "category_dir \<Rightarrow> string \<Rightarrow> string set" where
  "image_stems category_root split =
     (let stems = set (read_split_list (sets_file category_root (split @ ''.txt'')))
      in if stems = {} then set (jpg_glob category_root) \<union> set (png_glob category_root) else stems)"

text \<open>The image file tried for a stem: \<^verbatim>\<open><stem>.jpg\<close>, then \<^verbatim>\<open><stem>.png\<close>, else the stem is skipped.\<close>

definition find_image :: "category_dir \<Rightarrow> string \<Rightarrow> string option" where
  "find_image category_root stem =
     (if image_at category_root (stem @ ''.jpg'') \<noteq> NoFile then Some (stem @ ''.jpg'')
      else if image_at category_root (stem @ ''.png'') \<noteq> NoFile then Some (stem @ ''.png'')
      else None)"

definition make_annotation :: "nat \<Rightarrow> nat \<Rightarrow> box \<Rightarrow> annotation" where
  "make_annotation ann_id_counter image_id_counter b =
     \<lparr>ann_id = ann_id_counter, ann_image_id = image_id_counter, ann_category_id = 1,
      ann_bbox = [box_x b, box_y b, box_width b, box_height b],
      ann_area = round_double (box_width b * box_height b), ann_iscrowd = 0\<rparr>"

text \<open>The inner loop \<^verbatim>\<open>for box in _parse_csv_boxes(csv_path)\<close>: the counter and the list after it.\<close>

fun add_annotations :: "box list \<Rightarrow> nat \<Rightarrow> nat \<Rightarrow> annotation list \<Rightarrow> nat \<times> annotation list" where
  "add_annotations [] image_id_counter ann_id_counter anns = (ann_id_counter, anns)"
| "add_annotations (b # boxes) image_id_counter ann_id_counter anns =
     add_annotations boxes image_id_counter (ann_id_counter + 1)
       (anns @ [make_annotation ann_id_counter image_id_counter b])"

text \<open>The loop \<^verbatim>\<open>for stem in sorted(image_stems)\<close> with its two counters and two lists.\<close>

fun collect_loop ::
  "(string \<Rightarrow> real option) \<Rightarrow> category_dir \<Rightarrow> string list \<Rightarrow> nat \<Rightarrow> nat \<Rightarrow> image list \<Rightarrow> annotation list
   \<Rightarrow> error + image list \<times> annotation list" where
  "collect_loop pyfloat category_root [] image_id_counter ann_id_counter images anns = Inr (images, anns)"
| "collect_loop pyfloat category_root (stem # stems) image_id_counter ann_id_counter images anns =
     (case find_image category_root stem of
        None \<Rightarrow> collect_loop pyfloat category_root stems image_id_counter ann_id_counter images anns
      | Some img_name \<Rightarrow>
          (case image_size (image_at category_root img_name) of
             Inl e \<Rightarrow> Inl e
           | Inr (width, height) \<Rightarrow>
               (case parse_csv_boxes pyfloat (csv_at category_root (stem @ ''.csv'')) of
                  Inl e \<Rightarrow> Inl e
                | Inr boxes \<Rightarrow>
                    (case add_annotations boxes image_id_counter ann_id_counter anns of
                       (ann_id_counter', anns') \<Rightarrow>
                         collect_loop pyfloat category_root stems (image_id_counter + 1) ann_id_counter'
                           (images @ [\<lparr>img_id = image_id_counter,
                                       img_file_name = dir_name category_root @ ''/images/'' @ img_name,
                                       img_width = width, img_height = height\<rparr>])
                           anns'))))"

definition collect_annotations_for_split ::
  "(string \<Rightarrow> real option) \<Rightarrow> category_dir \<Rightarrow> string
   \<Rightarrow> error + image list \<times> annotation list \<times> category list" where
  "collect_annotations_for_split pyfloat category_root split =
     (case collect_loop pyfloat category_root (sorted_list_of_set (image_stems category_root split)) 1 1 [] [] of
        Inl e \<Rightarrow> Inl e
      | Inr (images, anns) \<Rightarrow>
          Inr (images, anns, [\<lparr>cat_id = 1, cat_name = ''grape'', cat_supercategory = ''fruit''\<rparr>]))"


section \<open>SplitAllocator: \<^verbatim>\<open>scripts/organize_dataset.py\<close>\<close>

text \<open>
  \<^verbatim>\<open>main\<close> reads \<^verbatim>\<open>train.txt\<close> and \<^verbatim>\<open>test.txt\<close> when they exist. A file is \<open>None\<close> when it
  does not exist and otherwise the list of its lines;
  \<^verbatim>\<open>{line.strip() for line in f if line.strip()}\<close> is the set of its stripped, non-empty lines.
\<close>

definition read_names :: "string list option \<Rightarrow> string set" where
  "read_names f = (case f of None \<Rightarrow> {}
                   | Some lines \<Rightarrow> set (filter (\<lambda>l. l \<noteq> []) (map strip lines)))"

text \<open>
  The locals of \<^verbatim>\<open>main\<close> that the five set files are written from; \<open>image_files\<close> is the
  list of the stems of the globbed image files. \<^verbatim>\<open>int(len(train_list) * 0.2)\<close>
  truncates a non-negative product, which is its floor; the product is taken in exact arithmetic.
\<close>

record sets =
  train_final :: "string list"
  val_list :: "string list"
  test_images :: "string set"
  all_images :: "string list"
  train_val :: "string list"

definition organize_sets :: "string list option \<Rightarrow> string list option \<Rightarrow> string list \<Rightarrow> sets" where
  "organize_sets train_file test_file image_files =
     (let train_images = read_names train_file;
          test_images = read_names test_file;
          all_image_stems = set image_files;
          train_only = train_images - test_images;
          train_list = sorted_list_of_set train_only;
          val_size = max 1 (nat \<lfloor>real (length train_list) * 0.2\<rfloor>);
          val_list = take val_size train_list;
          train_final = drop val_size train_list
      in \<lparr>train_final = train_final, val_list = val_list, test_images = test_images,
          all_images = sorted_list_of_set all_image_stems,
          train_val = sort (train_final @ val_list)\<rparr>)"

section \<open>MaskReducer: \<^verbatim>\<open>scripts/convert_npz_to_png.py\<close>\<close>

text \<open>
  The array \<^verbatim>\<open>data['arr_0']\<close> of shape \<open>(height, width, channels)\<close> with non-negative integer
  entries, indexed \<open>mask_at m i j k\<close> for row \<open>i\<close>, column \<open>j\<close> and channel \<open>k\<close>. Only
  three-dimensional arrays are modelled.
\<close>

record mask_array =
  mask_height :: nat
  mask_width :: nat
  mask_channels :: nat
  mask_at :: "nat \<Rightarrow> nat \<Rightarrow> nat \<Rightarrow> nat"

type_synonym gray_image = "8 word list list"

text \<open>\<^verbatim>\<open>mask_array[:, :, k].astype(np.uint8) * 255\<close>: the product stays in \<^verbatim>\<open>uint8\<close> and wraps.\<close>

definition channel_image :: "mask_array \<Rightarrow> nat \<Rightarrow> gray_image" where
  "channel_image m k =
     map (\<lambda>i. map (\<lambda>j. (of_nat (mask_at m i j k) :: 8 word) * 255) [0..<mask_width m])
       [0..<mask_height m]"

text \<open>\<^verbatim>\<open>np.max(mask_array, axis=2).astype(np.uint8) * 255\<close>, for an array with at least one channel.\<close>

definition max_image :: "mask_array \<Rightarrow> gray_image" where
  "max_image m =
     map (\<lambda>i. map (\<lambda>j. (of_nat (fold max (map (mask_at m i j) [0..<mask_channels m]) 0) :: 8 word) * 255)
                 [0..<mask_width m])
       [0..<mask_height m]"

text \<open>\<^verbatim>\<open>np.sum(mask_array, axis=(0, 1))\<close>: one sum per channel.\<close>

definition channel_areas :: "mask_array \<Rightarrow> nat list" where
  "channel_areas m =
     map (\<lambda>k. \<Sum>i\<leftarrow>[0..<mask_height m]. \<Sum>j\<leftarrow>[0..<mask_width m]. mask_at m i j k)
       [0..<mask_channels m]"

text \<open>
  \<^verbatim>\<open>np.argmax\<close> on a one-dimensional array: the index of the first occurrence of the maximum,
  found by one scan that moves only to a strictly greater entry; \<^verbatim>\<open>ValueError\<close> on an empty array.
\<close>

fun argmax_scan :: "nat list \<Rightarrow> nat \<Rightarrow> nat \<Rightarrow> nat \<Rightarrow> nat" where
  "argmax_scan [] i best_i best = best_i"
| "argmax_scan (v # vs) i best_i best =
     (if best < v then argmax_scan vs (i + 1) i v else argmax_scan vs (i + 1) best_i best)"

definition argmax :: "nat list \<Rightarrow> error + nat" where
  "argmax vs = (case vs of [] \<Rightarrow> Inl ValueError | v # rest \<Rightarrow> Inr (argmax_scan rest 1 0 v))"

text \<open>
  The branch on \<open>method\<close> inside the \<^verbatim>\<open>try\<close> block: \<open>merged_mask\<close>, or the exception raised. With no
  channel \<^verbatim>\<open>np.max\<close> and \<^verbatim>\<open>np.argmax\<close> raise \<^verbatim>\<open>ValueError\<close> and the index \<open>0\<close> raises \<^verbatim>\<open>IndexError\<close>.
\<close>

definition merged_mask :: "string \<Rightarrow> mask_array \<Rightarrow> error + gray_image" where
  "merged_mask method m =
     (if method = ''merge'' then
        (if mask_channels m = 0 then Inl ValueError else Inr (max_image m))
      else if method = ''first'' then
        (if mask_channels m = 0 then Inl IndexError else Inr (channel_image m 0))
      else if method = ''max'' then
        (case argmax (channel_areas m) of
           Inl e \<Rightarrow> Inl e
         | Inr max_channel_idx \<Rightarrow> Inr (channel_image m max_channel_idx))
      else Inl ValueError)"

text \<open>
  What a call of \<^verbatim>\<open>convert_npz_to_png\<close> leaves behind: the value it returns and the image saved at
  \<open>png_path\<close>, if any.
\<close>

record conversion =
  returned :: bool
  saved_png :: "gray_image option"

text \<open>
  The \<^verbatim>\<open>try\<close> block: \<open>npz\<close> is \<open>None\<close> when \<^verbatim>\<open>np.load\<close> or \<^verbatim>\<open>data['arr_0']\<close> raises. Pillow
  cannot save an image with no row or no column; for any other image \<open>png_writable\<close> tells
  whether creating the directory and writing the file succeed.
\<close>

definition try_convert :: "mask_array option \<Rightarrow> bool \<Rightarrow> string \<Rightarrow> error + gray_image" where
  "try_convert npz png_writable method =
     (case npz of
        None \<Rightarrow> Inl OSError
      | Some mask_array \<Rightarrow>
          (case merged_mask method mask_array of
             Inl e \<Rightarrow> Inl e
           | Inr img \<Rightarrow>
               if mask_height mask_array = 0 \<or> mask_width mask_array = 0 then Inl PillowError
               else if png_writable then Inr img
               else Inl OSError))"

text \<open>
  \<^verbatim>\<open>convert_npz_to_png(npz_path, png_path, method)\<close>: \<^verbatim>\<open>except Exception\<close> prints the exception
  and returns \<^verbatim>\<open>False\<close>. The result is \<open>Inl\<close> for an exception that reaches the caller.
\<close>

definition convert_npz_to_png :: "mask_array option \<Rightarrow> bool \<Rightarrow> string \<Rightarrow> error + conversion" where
  "convert_npz_to_png npz png_writable method =
     (case try_convert npz png_writable method of
        Inl e \<Rightarrow> Inr \<lparr>returned = False, saved_png = None\<rparr>
      | Inr img \<Rightarrow> Inr \<lparr>returned = True, saved_png = Some img\<rparr>)"

section \<open>Berry-count enrichment: \<^verbatim>\<open>scripts/add_berry_counts_to_json.py\<close>\<close>

text \<open>
  A value of \<^verbatim>\<open>json.load\<close>: \<^verbatim>\<open>None\<close>, a boolean, an integer, a float, a string, a list or a
  dictionary with string keys.
\<close>

datatype json =
    JNone
  | JBool bool
  | JInt int
  | JFloat real
  | JStr string
  | JList "json list"
  | JDict "(string \<times> json) list"
















section \<open>Properties of the geometry conversion\<close>

lemma round_half_even_of_int: "round_half_even (of_int n) = n"
  by (simp add: round_half_even_def)

lemma round_half_even_error: "\<bar>of_int (round_half_even t) - t\<bar> \<le> 1 / 2"
proof -
  define f where "f = \<lfloor>t\<rfloor>"
  define d where "d = t - of_int f"
  have d: "0 \<le> d" "d < 1"
    unfolding d_def f_def by linarith+
  have t: "t = of_int f + d"
    by (simp add: d_def)
  have r: "round_half_even t
      = (if d < 1 / 2 then f else if 1 / 2 < d then f + 1 else if even f then f else f + 1)"
    by (simp add: round_half_even_def Let_def f_def d_def)
  have "of_int (round_half_even t) - t
      = of_int (if d < 1 / 2 then f else if 1 / 2 < d then f + 1 else if even f then f else f + 1)
        - (of_int f + d)"
    using r t by simp
  then show ?thesis
    using d by (auto simp: abs_if)
qed

lemma pow2_pos: "0 < pow2 k"
  by (simp add: pow2_def)

lemma exponent_bounds:
  assumes "1 \<le> a"
  shows "0 \<le> exponent a" and "pow2 (exponent a) \<le> a"
proof -
  have pos: "0 < \<lfloor>a\<rfloor>"
    using assms by linarith
  have e: "exponent a = bitlen \<lfloor>a\<rfloor> - 1"
    using assms by (simp add: exponent_def)
  have "bitlen \<lfloor>a\<rfloor> \<noteq> 0"
    using pos by (simp add: bitlen_eq_zero_iff)
  then show nonneg: "0 \<le> exponent a"
    using bitlen_nonneg [of "\<lfloor>a\<rfloor>"] e by linarith
  have "(2::int) ^ nat (bitlen \<lfloor>a\<rfloor> - 1) \<le> \<lfloor>a\<rfloor>"
    using bitlen_bounds [OF pos] by simp
  then have "real_of_int (2 ^ nat (bitlen \<lfloor>a\<rfloor> - 1)) \<le> real_of_int \<lfloor>a\<rfloor>"
    by (rule of_int_le_iff [THEN iffD2])
  also have "\<dots> \<le> a" by simp
  finally show "pow2 (exponent a) \<le> a"
    using nonneg e by (simp add: pow2_def)
qed

lemma pow2_diff: "0 \<le> e \<Longrightarrow> pow2 (e - int n) = pow2 e / 2 ^ n"
proof -
  assume e: "0 \<le> e"
  show ?thesis
  proof (cases "int n \<le> e")
    case True
    then have "nat (e - int n) = nat e - n" and "n \<le> nat e"
      by simp_all
    then have "(2::real) ^ nat (e - int n) = 2 ^ nat e / 2 ^ n"
      by (simp add: power_diff)
    then show ?thesis using True e by (simp add: pow2_def)
  next
    case False
    then have "nat (- (e - int n)) = n - nat e" and "nat e \<le> n"
      using e by simp_all
    then have "(2::real) ^ nat (- (e - int n)) = 2 ^ n / 2 ^ nat e"
      by (simp add: power_diff)
    then show ?thesis using False e by (simp add: pow2_def)
  qed
qed

lemma pow2_shift: "0 \<le> e \<Longrightarrow> pow2 (e - 52) = pow2 e / 2 ^ 52"
  using pow2_diff [of e 52] by simp

lemma round_double_relative:
  assumes "1 \<le> a"
  shows "\<bar>round_double a - a\<bar> \<le> a / 2 ^ 53"
proof -
  define q where "q = pow2 (exponent a - 52)"
  have q: "q = pow2 (exponent a) / 2 ^ 52"
    unfolding q_def using exponent_bounds(1) [OF assms] by (rule pow2_shift)
  have qpos: "0 < q"
    unfolding q_def by (rule pow2_pos)
  have qle: "q \<le> a / 2 ^ 52"
    unfolding q using exponent_bounds(2) [OF assms] by (simp add: divide_right_mono)
  have rd: "round_double a = of_int (round_half_even (a / q)) * q"
    using assms exponent_bounds(1) [OF assms] by (simp add: round_double_def q_def max_def Let_def)
  have "\<bar>round_double a - a\<bar> = \<bar>of_int (round_half_even (a / q)) - a / q\<bar> * q"
  proof -
    have "round_double a - a = (of_int (round_half_even (a / q)) - a / q) * q"
      unfolding rd using qpos by (simp add: algebra_simps)
    then show ?thesis
      using qpos by (simp add: abs_mult)
  qed
  also have "\<dots> \<le> (1 / 2) * q"
    using round_half_even_error [of "a / q"] qpos by (intro mult_right_mono) simp_all
  also have "\<dots> \<le> (1 / 2) * (a / 2 ^ 52)"
    using qle by simp
  also have "\<dots> = a / 2 ^ 53"
    by simp
  finally show ?thesis .
qed

lemma exponent_of_int:
  assumes "0 < i" and "i < 2 ^ 53"
  shows "exponent \<bar>real_of_int i\<bar> = bitlen i - 1" and "0 \<le> bitlen i - 1" and "bitlen i - 1 \<le> 52"
proof -
  have a: "1 \<le> real_of_int i"
    using assms(1) by simp
  have abs: "\<bar>real_of_int i\<bar> = real_of_int i"
    using assms(1) by simp
  have e: "exponent (real_of_int i) = bitlen i - 1"
    using a by (simp add: exponent_def)
  show "exponent \<bar>real_of_int i\<bar> = bitlen i - 1"
    unfolding abs by (rule e)
  show nonneg: "0 \<le> bitlen i - 1"
    using exponent_bounds(1) [OF a] e by simp
  have "(2::int) ^ nat (bitlen i - 1) \<le> i"
    using bitlen_bounds [OF assms(1)] by simp
  also have "\<dots> < 2 ^ 53" by (rule assms(2))
  finally have "(2::int) ^ nat (bitlen i - 1) < 2 ^ 53" .
  then have "nat (bitlen i - 1) < 53"
    by (rule power_less_imp_less_exp [rotated]) simp
  then show "bitlen i - 1 \<le> 52" by simp
qed

lemma round_double_of_int:
  assumes "0 \<le> i" and "i < 2 ^ 53"
  shows "round_double (of_int i) = of_int i"
proof (cases "i = 0")
  case True
  then show ?thesis by (simp add: round_double_def)
next
  case False
  then have pos: "0 < i" using assms(1) by simp
  note e = exponent_of_int [OF pos assms(2)]
  define k where "k = nat (52 - (bitlen i - 1))"
  have q: "pow2 (max (exponent \<bar>real_of_int i\<bar>) (- 1022) - 52) = 1 / 2 ^ k"
  proof -
    have "max (bitlen i - 1) (- 1022) = bitlen i - 1" using e(2) by simp
    then have "pow2 (max (exponent \<bar>real_of_int i\<bar>) (- 1022) - 52) = pow2 (bitlen i - 1 - 52)"
      using e(1) by simp
    also have "\<dots> = 1 / 2 ^ k"
    proof (cases "bitlen i - 1 = 52")
      case True
      then show ?thesis by (simp add: pow2_def k_def)
    next
      case False
      then have "bitlen i - 1 - 52 < 0" using e(3) by simp
      moreover have "nat (- (bitlen i - 1 - 52)) = k" by (simp add: k_def)
      ultimately show ?thesis by (simp add: pow2_def)
    qed
    finally show ?thesis .
  qed
  have "real_of_int i / (1 / 2 ^ k) = real_of_int (i * 2 ^ k)"
    by simp
  then have "round_half_even (real_of_int i / (1 / 2 ^ k)) = i * 2 ^ k"
    by (simp only: round_half_even_of_int)
  then have "of_int (round_half_even (real_of_int i / (1 / 2 ^ k))) * (1 / 2 ^ k) = real_of_int i"
    by simp
  then show ?thesis
    using False q by (simp add: round_double_def Let_def)
qed

lemma to_float_int:
  assumes "0 \<le> i" and "i < 2 ^ 53"
  shows "to_float (PyInt i) = Inr (of_int i)"
proof -
  have "\<not> out_of_range (real_of_int i)"
  proof (cases "i = 0")
    case True
    then show ?thesis by (simp add: out_of_range_def)
  next
    case False
    then have pos: "0 < i" using assms(1) by simp
    show ?thesis
      using exponent_of_int [OF pos assms(2)] by (simp add: out_of_range_def)
  qed
  then show ?thesis
    by (simp add: to_float_def round_double_of_int [OF assms])
qed

lemma to_float_float: "to_float (PyFloat r) = Inr r"
  by (simp add: to_float_def)

lemma py_mul_float_int:
  assumes "0 \<le> i" and "i < 2 ^ 53"
  shows "py_mul (PyFloat a) (PyInt i) = Inr (PyFloat (round_double (a * real_of_int i)))"
  by (simp add: py_mul_def float_op_def to_float_float to_float_int [OF assms])

lemma py_half_float: "py_half (PyFloat a) = Inr (PyFloat (round_double (a / 2)))"
proof -
  have "to_float (PyInt 2) = Inr (real_of_int 2)"
    by (rule to_float_int) simp_all
  then show ?thesis
    by (simp add: py_half_def float_op_def to_float_float)
qed

lemma py_sub_floats: "py_sub (PyFloat a) (PyFloat b) = Inr (PyFloat (round_double (a - b)))"
  by (simp add: py_sub_def float_op_def to_float_float)

lemma py_sub_int_float:
  assumes "0 \<le> i" and "i < 2 ^ 53"
  shows "py_sub (PyInt i) (PyFloat b) = Inr (PyFloat (round_double (real_of_int i - b)))"
  by (simp add: py_sub_def float_op_def to_float_float to_float_int [OF assms])

lemma py_min_le: "num_value (py_min a b) \<le> num_value b"
  by (simp add: py_min_def)

lemma clamp_room:
  assumes "1 \<le> W" and "W < 2 ^ 53"
  shows "\<exists>room. py_sub (PyInt W) (py_max (PyInt 0) (py_min (PyFloat r) (PyInt (W - 1)))) = Inr room
       \<and> 0 \<le> num_value (py_max (PyInt 0) (py_min (PyFloat r) (PyInt (W - 1))))
       \<and> num_value (py_max (PyInt 0) (py_min (PyFloat r) (PyInt (W - 1)))) + num_value room
           \<le> real_of_int W * (1 + 1 / 2 ^ 53)"
proof -
  define x where "x = py_max (PyInt 0) (py_min (PyFloat r) (PyInt (W - 1)))"
  have W0: "0 \<le> W" using assms(1) by simp
  have slack: "real_of_int W \<le> real_of_int W * (1 + 1 / 2 ^ 53)"
    using assms(1) by (simp add: algebra_simps)
  have "(\<exists>k. x = PyInt k \<and> 0 \<le> k \<and> k \<le> W - 1)
      \<or> (x = PyFloat r \<and> 0 < r \<and> r \<le> real_of_int (W - 1))"
  proof (cases "real_of_int (W - 1) < r")
    case True
    then have "py_min (PyFloat r) (PyInt (W - 1)) = PyInt (W - 1)"
      by (simp add: py_min_def num_value_def)
    then have "x = (if 0 < W - 1 then PyInt (W - 1) else PyInt 0)"
      by (simp add: x_def py_max_def num_value_def)
    then show ?thesis
      using assms(1) by (cases "0 < W - 1") auto
  next
    case False
    then have "py_min (PyFloat r) (PyInt (W - 1)) = PyFloat r"
      by (simp add: py_min_def num_value_def)
    then have "x = (if 0 < r then PyFloat r else PyInt 0)"
      by (simp add: x_def py_max_def num_value_def)
    then show ?thesis
      using False assms(1) by (cases "0 < r") auto
  qed
  then consider (int) k where "x = PyInt k" "0 \<le> k" "k \<le> W - 1"
    | (float) "x = PyFloat r" "0 < r" "r \<le> real_of_int (W - 1)"
    by blast
  then have "\<exists>room. py_sub (PyInt W) x = Inr room \<and> 0 \<le> num_value x
       \<and> num_value x + num_value room \<le> real_of_int W * (1 + 1 / 2 ^ 53)"
  proof cases
    case int
    have "py_sub (PyInt W) x = Inr (PyInt (W - k))"
      by (simp add: py_sub_def int(1))
    moreover have "0 \<le> num_value x"
      using int by (simp add: num_value_def)
    moreover have "num_value x + num_value (PyInt (W - k)) \<le> real_of_int W * (1 + 1 / 2 ^ 53)"
      using slack by (simp add: num_value_def int(1))
    ultimately show ?thesis by blast
  next
    case float
    have a: "1 \<le> real_of_int W - r"
      using float(3) by simp
    have sub: "py_sub (PyInt W) x = Inr (PyFloat (round_double (real_of_int W - r)))"
      unfolding float(1) by (rule py_sub_int_float [OF W0 assms(2)])
    have "round_double (real_of_int W - r) \<le> (real_of_int W - r) + (real_of_int W - r) / 2 ^ 53"
      using round_double_relative [OF a] by linarith
    also have "\<dots> \<le> (real_of_int W - r) + real_of_int W / 2 ^ 53"
      using float(2) by (simp add: divide_right_mono)
    finally have "r + round_double (real_of_int W - r) \<le> real_of_int W * (1 + 1 / 2 ^ 53)"
      by (simp add: algebra_simps)
    then have "num_value x + num_value (PyFloat (round_double (real_of_int W - r)))
        \<le> real_of_int W * (1 + 1 / 2 ^ 53)"
      by (simp add: num_value_def float(1))
    moreover have "0 \<le> num_value x"
      using float(2) by (simp add: num_value_def float(1))
    ultimately show ?thesis using sub by blast
  qed
  then show ?thesis unfolding x_def .
qed


lemma pow2_mono: "a \<le> b \<Longrightarrow> 0 \<le> a \<Longrightarrow> pow2 a \<le> pow2 b"
  by (simp add: pow2_def power_increasing)

lemma exponent_upper:
  assumes "1 \<le> a"
  shows "a < pow2 (exponent a + 1)"
proof -
  have pos: "0 < \<lfloor>a\<rfloor>"
    using assms by linarith
  have e: "exponent a + 1 = bitlen \<lfloor>a\<rfloor>"
    using assms by (simp add: exponent_def)
  have "\<lfloor>a\<rfloor> < 2 ^ nat (bitlen \<lfloor>a\<rfloor>)"
    using bitlen_bounds [OF pos] by simp
  then have "\<lfloor>a\<rfloor> + 1 \<le> 2 ^ nat (bitlen \<lfloor>a\<rfloor>)"
    by simp
  then have "real_of_int (\<lfloor>a\<rfloor> + 1) \<le> real_of_int (2 ^ nat (bitlen \<lfloor>a\<rfloor>))"
    by (rule of_int_le_iff [THEN iffD2])
  then have "real_of_int \<lfloor>a\<rfloor> + 1 \<le> 2 ^ nat (bitlen \<lfloor>a\<rfloor>)"
    by simp
  moreover have "a < real_of_int \<lfloor>a\<rfloor> + 1"
    by linarith
  ultimately have "a < 2 ^ nat (bitlen \<lfloor>a\<rfloor>)"
    by (rule less_le_trans [rotated])
  then show ?thesis
    unfolding e using bitlen_nonneg [of "\<lfloor>a\<rfloor>"] by (simp add: pow2_def)
qed

lemma exponent_small:
  assumes "0 < a" and "a < 1"
  shows "exponent a \<le> 0"
proof -
  have "0 \<le> bitlen \<lfloor>1 / a\<rfloor>"
    by (rule bitlen_nonneg)
  moreover have "bitlen \<lfloor>1 / a\<rfloor> \<noteq> 0"
  proof -
    have "1 \<le> 1 / a" using assms by simp
    then have "0 < \<lfloor>1 / a\<rfloor>" by linarith
    then show ?thesis by (simp add: bitlen_eq_zero_iff)
  qed
  ultimately have "0 \<le> bitlen \<lfloor>1 / a\<rfloor> - 1" by linarith
  then show ?thesis
    using assms(2) by (simp add: exponent_def Let_def)
qed

lemma out_of_range_iff: "out_of_range r \<longleftrightarrow> pow2 1024 \<le> \<bar>r\<bar>"
proof (cases "1 \<le> \<bar>r\<bar>")
  case True
  then have nz: "r \<noteq> 0" by auto
  show ?thesis
  proof
    assume "out_of_range r"
    then have "1024 \<le> exponent \<bar>r\<bar>"
      by (simp add: out_of_range_def)
    then have "pow2 1024 \<le> pow2 (exponent \<bar>r\<bar>)"
      by (rule pow2_mono) simp
    also have "\<dots> \<le> \<bar>r\<bar>"
      by (rule exponent_bounds(2) [OF True])
    finally show "pow2 1024 \<le> \<bar>r\<bar>" .
  next
    assume big: "pow2 1024 \<le> \<bar>r\<bar>"
    have "\<not> exponent \<bar>r\<bar> < 1024"
    proof
      assume "exponent \<bar>r\<bar> < 1024"
      then have "exponent \<bar>r\<bar> + 1 \<le> 1024" by simp
      then have "pow2 (exponent \<bar>r\<bar> + 1) \<le> pow2 1024"
        using exponent_bounds(1) [OF True] by (intro pow2_mono) simp_all
      then show False
        using exponent_upper [OF True] big by linarith
    qed
    then show "out_of_range r"
      using nz by (simp add: out_of_range_def)
  qed
next
  case False
  have one: "1 \<le> pow2 1024"
    using pow2_mono [of 0 1024] by (simp add: pow2_def)
  have "\<not> out_of_range r"
  proof (cases "r = 0")
    case True
    then show ?thesis by (simp add: out_of_range_def)
  next
    case nz: False
    then have "0 < \<bar>r\<bar>" by simp
    from exponent_small [OF this] False show ?thesis
      by (simp add: out_of_range_def)
  qed
  moreover have "\<not> pow2 1024 \<le> \<bar>r\<bar>"
    using False one by linarith
  ultimately show ?thesis by simp
qed

lemma extent_shrunk: "x + min b (W - x) \<le> (W::int)"
  by (simp add: min_def)

text \<open>
  Claim C2, as stated, fails for \<^verbatim>\<open>yolo_to_absolute\<close>: the extent is cut to the rounded difference
  \<^verbatim>\<open>img_width - x\<close>. For the doubles written \<^verbatim>\<open>0.83\<close> and \<^verbatim>\<open>0.97\<close> and an image 7 pixels wide,
  \<open>x\<close> is \<^verbatim>\<open>2.4149999999999996\<close>, the width is \<^verbatim>\<open>4.585000000000001\<close>, and their sum is above 7.
\<close>

theorem geometry_float_counterexample:
  "round_double (83 / 100) = 7475975381435023 / 9007199254740992
   \<and> round_double (97 / 100) = 4368491638549381 / 4503599627370496
   \<and> yolo_to_absolute (0, 7475975381435023 / 9007199254740992, 1 / 2, 4368491638549381 / 4503599627370496, 1 / 2) 7 8
     = Inr (PyFloat (5438096550049873 / 2251799813685248), PyFloat (2), PyFloat (645281384109179 / 140737488355328), PyFloat (4), 1)
   \<and> \<not> 5438096550049873 / 2251799813685248 + 645281384109179 / 140737488355328 \<le> (7::real)"
proof -
  have d1: "round_double (83 / 100) = 7475975381435023 / 9007199254740992"
    by code_simp
  have d2: "round_double (97 / 100) = 4368491638549381 / 4503599627370496"
    by code_simp
  have r1: "round_double (7475975381435023 / 9007199254740992 * real_of_int 7) = 6541478458755645 / 1125899906842624"
    by code_simp
  have s2: "py_mul (PyFloat (7475975381435023 / 9007199254740992)) (PyInt 7) = Inr (PyFloat (6541478458755645 / 1125899906842624))"
    using py_mul_float_int [of 7 "7475975381435023 / 9007199254740992"] r1 by simp
  have r3: "round_double (1 / 2 * real_of_int 8) = 4"
    by code_simp
  have s4: "py_mul (PyFloat (1 / 2)) (PyInt 8) = Inr (PyFloat (4))"
    using py_mul_float_int [of 8 "1 / 2"] r3 by simp
  have r5: "round_double (4368491638549381 / 4503599627370496 * real_of_int 7) = 7644860367461417 / 1125899906842624"
    by code_simp
  have s6: "py_mul (PyFloat (4368491638549381 / 4503599627370496)) (PyInt 7) = Inr (PyFloat (7644860367461417 / 1125899906842624))"
    using py_mul_float_int [of 7 "4368491638549381 / 4503599627370496"] r5 by simp
  have r7: "round_double (1 / 2 * real_of_int 8) = 4"
    by code_simp
  have s8: "py_mul (PyFloat (1 / 2)) (PyInt 8) = Inr (PyFloat (4))"
    using py_mul_float_int [of 8 "1 / 2"] r7 by simp
  have r9: "round_double (7644860367461417 / 1125899906842624 / 2) = 7644860367461417 / 2251799813685248"
    by code_simp
  have s10: "py_half (PyFloat (7644860367461417 / 1125899906842624)) = Inr (PyFloat (7644860367461417 / 2251799813685248))"
    using py_half_float [of "7644860367461417 / 1125899906842624"] r9 by simp
  have r11: "round_double (6541478458755645 / 1125899906842624 - 7644860367461417 / 2251799813685248) = 5438096550049873 / 2251799813685248"
    by code_simp
  have s12: "py_sub (PyFloat (6541478458755645 / 1125899906842624)) (PyFloat (7644860367461417 / 2251799813685248)) = Inr (PyFloat (5438096550049873 / 2251799813685248))"
    using py_sub_floats [of "6541478458755645 / 1125899906842624" "7644860367461417 / 2251799813685248"] r11 by simp
  have r13: "round_double (4 / 2) = 2"
    by code_simp
  have s14: "py_half (PyFloat (4)) = Inr (PyFloat (2))"
    using py_half_float [of "4"] r13 by simp
  have r15: "round_double (4 - 2) = 2"
    by code_simp
  have s16: "py_sub (PyFloat (4)) (PyFloat (2)) = Inr (PyFloat (2))"
    using py_sub_floats [of "4" "2"] r15 by simp
  have s17: "py_max (PyInt 0) (py_min (PyFloat (5438096550049873 / 2251799813685248)) (PyInt (7 - 1))) = PyFloat (5438096550049873 / 2251799813685248)"
    by (simp add: py_min_def py_max_def num_value_def)
  have s18: "py_max (PyInt 0) (py_min (PyFloat (2)) (PyInt (8 - 1))) = PyFloat (2)"
    by (simp add: py_min_def py_max_def num_value_def)
  have r19: "round_double (real_of_int 7 - 5438096550049873 / 2251799813685248) = 645281384109179 / 140737488355328"
    by code_simp
  have s20: "py_sub (PyInt 7) (PyFloat (5438096550049873 / 2251799813685248)) = Inr (PyFloat (645281384109179 / 140737488355328))"
    using py_sub_int_float [of 7 "5438096550049873 / 2251799813685248"] r19 by simp
  have r21: "round_double (real_of_int 8 - 2) = 6"
    by code_simp
  have s22: "py_sub (PyInt 8) (PyFloat (2)) = Inr (PyFloat (6))"
    using py_sub_int_float [of 8 "2"] r21 by simp
  have s23: "py_min (PyFloat (7644860367461417 / 1125899906842624)) (PyFloat (645281384109179 / 140737488355328)) = PyFloat (645281384109179 / 140737488355328)"
    by (simp add: py_min_def num_value_def)
  have s24: "py_min (PyFloat (4)) (PyFloat (6)) = PyFloat (4)"
    by (simp add: py_min_def num_value_def)
  have s25: "py_int (0) + 1 = 1"
    by (simp add: py_int_def)
  have run: "yolo_to_absolute (0, 7475975381435023 / 9007199254740992, 1 / 2, 4368491638549381 / 4503599627370496, 1 / 2) 7 8
      = Inr (PyFloat (5438096550049873 / 2251799813685248), PyFloat (2), PyFloat (645281384109179 / 140737488355328), PyFloat (4), 1)"
    by (simp only: yolo_to_absolute_def prod.case sum.case Let_def s2 s4 s6 s8 s10 s12 s14 s16 s17 s18 s20 s22 s23 s24 s25)
  have over: "\<not> 5438096550049873 / 2251799813685248 + 645281384109179 / 140737488355328 \<le> (7::real)"
    by simp
  show ?thesis
    using d1 d2 run over by blast
qed

text \<open>
  Claim C2, amended. For every normalized box with \<open>cx, cy, w, h\<close> in \<open>[0, 1]\<close> and every image
  size with \<open>1 \<le> W, H < 2\<^sup>5\<^sup>3\<close>, both conversions return a box. The float box of
  \<^verbatim>\<open>yolo_to_absolute\<close> has \<open>0 \<le> x\<close>, \<open>0 \<le> y\<close>, \<open>x + width \<le> W (1 + 2\<^sup>-\<^sup>5\<^sup>3)\<close> and
  \<open>y + height \<le> H (1 + 2\<^sup>-\<^sup>5\<^sup>3)\<close>; the integer box of \<^verbatim>\<open>parse_yolo_annotation\<close> has \<open>0 \<le> x\<close>,
  \<open>0 \<le> y\<close>, \<open>x + width \<le> W\<close> and \<open>y + height \<le> H\<close>.
\<close>

theorem geometry_within_image_up_to_rounding:
  assumes "0 \<le> cx" "cx \<le> 1" "0 \<le> cy" "cy \<le> 1" "0 \<le> w" "w \<le> 1" "0 \<le> h" "h \<le> 1"
    and "1 \<le> W" "W < 2 ^ 53" "1 \<le> H" "H < 2 ^ 53"
  shows "(\<exists>x y width height label.
            yolo_to_absolute (c, cx, cy, w, h) W H = Inr (x, y, width, height, label)
            \<and> 0 \<le> num_value x \<and> 0 \<le> num_value y
            \<and> num_value x + num_value width \<le> real_of_int W * (1 + 1 / 2 ^ 53)
            \<and> num_value y + num_value height \<le> real_of_int H * (1 + 1 / 2 ^ 53))
       \<and> (\<exists>cat x y width height a.
            parse_yolo_annotation_bbox k cx cy w h W H = Inr (cat, x, y, width, height, a)
            \<and> 0 \<le> x \<and> 0 \<le> y \<and> x + width \<le> W \<and> y + height \<le> H)"
proof -
  have W0: "0 \<le> W" and H0: "0 \<le> H"
    using assms(9,11) by simp_all
  note mulW = py_mul_float_int [OF W0 assms(10)]
  note mulH = py_mul_float_int [OF H0 assms(12)]
  define wa where "wa = round_double (w * real_of_int W)"
  define ha where "ha = round_double (h * real_of_int H)"
  define x0 where "x0 = round_double (round_double (cx * real_of_int W) - round_double (wa / 2))"
  define y0 where "y0 = round_double (round_double (cy * real_of_int H) - round_double (ha / 2))"
  define x where "x = py_max (PyInt 0) (py_min (PyFloat x0) (PyInt (W - 1)))"
  define y where "y = py_max (PyInt 0) (py_min (PyFloat y0) (PyInt (H - 1)))"
  from clamp_room [OF assms(9,10), of x0] obtain room_x where
    rx: "py_sub (PyInt W) x = Inr room_x" and x_pos: "0 \<le> num_value x"
    and x_sum: "num_value x + num_value room_x \<le> real_of_int W * (1 + 1 / 2 ^ 53)"
    unfolding x_def by blast
  from clamp_room [OF assms(11,12), of y0] obtain room_y where
    ry: "py_sub (PyInt H) y = Inr room_y" and y_pos: "0 \<le> num_value y"
    and y_sum: "num_value y + num_value room_y \<le> real_of_int H * (1 + 1 / 2 ^ 53)"
    unfolding y_def by blast
  have run: "yolo_to_absolute (c, cx, cy, w, h) W H
      = Inr (x, y, py_min (PyFloat wa) room_x, py_min (PyFloat ha) room_y, py_int c + 1)"
    using rx ry unfolding x_def y_def x0_def y0_def wa_def ha_def
    by (simp add: yolo_to_absolute_def mulW mulH py_half_float py_sub_floats Let_def)
  have xb: "num_value x + num_value (py_min (PyFloat wa) room_x) \<le> real_of_int W * (1 + 1 / 2 ^ 53)"
    using py_min_le [of "PyFloat wa" room_x] x_sum by linarith
  have yb: "num_value y + num_value (py_min (PyFloat ha) room_y) \<le> real_of_int H * (1 + 1 / 2 ^ 53)"
    using py_min_le [of "PyFloat ha" room_y] y_sum by linarith
  have float_path: "\<exists>x y width height label.
            yolo_to_absolute (c, cx, cy, w, h) W H = Inr (x, y, width, height, label)
            \<and> 0 \<le> num_value x \<and> 0 \<le> num_value y
            \<and> num_value x + num_value width \<le> real_of_int W * (1 + 1 / 2 ^ 53)
            \<and> num_value y + num_value height \<le> real_of_int H * (1 + 1 / 2 ^ 53)"
    using run x_pos y_pos xb yb by blast
  define xi where "xi = max 0 (min (py_int (round_double (round_double (cx - round_double (w / 2))
      * real_of_int W))) (W - 1))"
  define yi where "yi = max 0 (min (py_int (round_double (round_double (cy - round_double (h / 2))
      * real_of_int H))) (H - 1))"
  define wi where "wi = min (py_int wa) (W - xi)"
  define hi where "hi = min (py_int ha) (H - yi)"
  have run_int: "parse_yolo_annotation_bbox k cx cy w h W H = Inr (k + 1, xi, yi, wi, hi, wi * hi)"
    unfolding xi_def yi_def wi_def hi_def wa_def ha_def
    by (simp add: parse_yolo_annotation_bbox_def mulW mulH py_half_float py_sub_floats Let_def
        num_value_def)
  have "0 \<le> xi" and "0 \<le> yi"
    by (simp_all add: xi_def yi_def)
  moreover have "xi + wi \<le> W" and "yi + hi \<le> H"
    unfolding wi_def hi_def by (rule extent_shrunk)+
  ultimately have int_path: "\<exists>cat x y width height a.
            parse_yolo_annotation_bbox k cx cy w h W H = Inr (cat, x, y, width, height, a)
            \<and> 0 \<le> x \<and> 0 \<le> y \<and> x + width \<le> W \<and> y + height \<le> H"
    using run_int by blast
  show ?thesis
    using float_path int_path by blast
qed

theorem geometry_within_image_up_to_rounding_witness:
  "round_double (2 / 10) = 3602879701896397 / 18014398509481984
   \<and> yolo_to_absolute (0, 1 / 2, 1 / 2, 3602879701896397 / 18014398509481984, 1 / 4) 1000 800
     = Inr (PyFloat (400), PyFloat (300), PyFloat (200), PyFloat (200), 1)
   \<and> parse_yolo_annotation_bbox 0 (1 / 2) (1 / 2) (3602879701896397 / 18014398509481984) (1 / 4) 1000 800
     = Inr (1, 400, 300, 200, 200, 40000)"
proof -
  have d: "round_double (2 / 10) = 3602879701896397 / 18014398509481984"
    by code_simp
  have r1: "round_double (1 / 2 * real_of_int 1000) = 500"
    by code_simp
  have s2: "py_mul (PyFloat (1 / 2)) (PyInt 1000) = Inr (PyFloat (500))"
    using py_mul_float_int [of 1000 "1 / 2"] r1 by simp
  have r3: "round_double (1 / 2 * real_of_int 800) = 400"
    by code_simp
  have s4: "py_mul (PyFloat (1 / 2)) (PyInt 800) = Inr (PyFloat (400))"
    using py_mul_float_int [of 800 "1 / 2"] r3 by simp
  have r5: "round_double (3602879701896397 / 18014398509481984 * real_of_int 1000) = 200"
    by code_simp
  have s6: "py_mul (PyFloat (3602879701896397 / 18014398509481984)) (PyInt 1000) = Inr (PyFloat (200))"
    using py_mul_float_int [of 1000 "3602879701896397 / 18014398509481984"] r5 by simp
  have r7: "round_double (1 / 4 * real_of_int 800) = 200"
    by code_simp
  have s8: "py_mul (PyFloat (1 / 4)) (PyInt 800) = Inr (PyFloat (200))"
    using py_mul_float_int [of 800 "1 / 4"] r7 by simp
  have r9: "round_double (200 / 2) = 100"
    by code_simp
  have s10: "py_half (PyFloat (200)) = Inr (PyFloat (100))"
    using py_half_float [of "200"] r9 by simp
  have r11: "round_double (500 - 100) = 400"
    by code_simp
  have s12: "py_sub (PyFloat (500)) (PyFloat (100)) = Inr (PyFloat (400))"
    using py_sub_floats [of "500" "100"] r11 by simp
  have r13: "round_double (200 / 2) = 100"
    by code_simp
  have s14: "py_half (PyFloat (200)) = Inr (PyFloat (100))"
    using py_half_float [of "200"] r13 by simp
  have r15: "round_double (400 - 100) = 300"
    by code_simp
  have s16: "py_sub (PyFloat (400)) (PyFloat (100)) = Inr (PyFloat (300))"
    using py_sub_floats [of "400" "100"] r15 by simp
  have s17: "py_max (PyInt 0) (py_min (PyFloat (400)) (PyInt (1000 - 1))) = PyFloat (400)"
    by (simp add: py_min_def py_max_def num_value_def)
  have s18: "py_max (PyInt 0) (py_min (PyFloat (300)) (PyInt (800 - 1))) = PyFloat (300)"
    by (simp add: py_min_def py_max_def num_value_def)
  have r19: "round_double (real_of_int 1000 - 400) = 600"
    by code_simp
  have s20: "py_sub (PyInt 1000) (PyFloat (400)) = Inr (PyFloat (600))"
    using py_sub_int_float [of 1000 "400"] r19 by simp
  have r21: "round_double (real_of_int 800 - 300) = 500"
    by code_simp
  have s22: "py_sub (PyInt 800) (PyFloat (300)) = Inr (PyFloat (500))"
    using py_sub_int_float [of 800 "300"] r21 by simp
  have s23: "py_min (PyFloat (200)) (PyFloat (600)) = PyFloat (200)"
    by (simp add: py_min_def num_value_def)
  have s24: "py_min (PyFloat (200)) (PyFloat (500)) = PyFloat (200)"
    by (simp add: py_min_def num_value_def)
  have s25: "py_int (0) + 1 = 1"
    by (simp add: py_int_def)
  have run: "yolo_to_absolute (0, 1 / 2, 1 / 2, 3602879701896397 / 18014398509481984, 1 / 4) 1000 800
      = Inr (PyFloat (400), PyFloat (300), PyFloat (200), PyFloat (200), 1)"
    by (simp only: yolo_to_absolute_def prod.case sum.case Let_def s2 s4 s6 s8 s10 s12 s14 s16 s17 s18 s20 s22 s23 s24 s25)
  have o1: "round_double (3602879701896397 / 18014398509481984 / 2) = 3602879701896397 / 36028797018963968"
    by code_simp
  have p2: "py_half (PyFloat (3602879701896397 / 18014398509481984)) = Inr (PyFloat (3602879701896397 / 36028797018963968))"
    using py_half_float [of "3602879701896397 / 18014398509481984"] o1 by simp
  have o3: "round_double (1 / 2 - 3602879701896397 / 36028797018963968) = 3602879701896397 / 9007199254740992"
    by code_simp
  have p4: "py_sub (PyFloat (1 / 2)) (PyFloat (3602879701896397 / 36028797018963968)) = Inr (PyFloat (3602879701896397 / 9007199254740992))"
    using py_sub_floats [of "1 / 2" "3602879701896397 / 36028797018963968"] o3 by simp
  have o5: "round_double (3602879701896397 / 9007199254740992 * real_of_int 1000) = 400"
    by code_simp
  have p6: "py_mul (PyFloat (3602879701896397 / 9007199254740992)) (PyInt 1000) = Inr (PyFloat (400))"
    using py_mul_float_int [of 1000 "3602879701896397 / 9007199254740992"] o5 by simp
  have o7: "round_double (1 / 4 / 2) = 1 / 8"
    by code_simp
  have p8: "py_half (PyFloat (1 / 4)) = Inr (PyFloat (1 / 8))"
    using py_half_float [of "1 / 4"] o7 by simp
  have o9: "round_double (1 / 2 - 1 / 8) = 3 / 8"
    by code_simp
  have p10: "py_sub (PyFloat (1 / 2)) (PyFloat (1 / 8)) = Inr (PyFloat (3 / 8))"
    using py_sub_floats [of "1 / 2" "1 / 8"] o9 by simp
  have o11: "round_double (3 / 8 * real_of_int 800) = 300"
    by code_simp
  have p12: "py_mul (PyFloat (3 / 8)) (PyInt 800) = Inr (PyFloat (300))"
    using py_mul_float_int [of 800 "3 / 8"] o11 by simp
  have o13: "round_double (3602879701896397 / 18014398509481984 * real_of_int 1000) = 200"
    by code_simp
  have p14: "py_mul (PyFloat (3602879701896397 / 18014398509481984)) (PyInt 1000) = Inr (PyFloat (200))"
    using py_mul_float_int [of 1000 "3602879701896397 / 18014398509481984"] o13 by simp
  have o15: "round_double (1 / 4 * real_of_int 800) = 200"
    by code_simp
  have p16: "py_mul (PyFloat (1 / 4)) (PyInt 800) = Inr (PyFloat (200))"
    using py_mul_float_int [of 800 "1 / 4"] o15 by simp
  have p17: "py_int (num_value (PyFloat (400))) = 400"
    by (simp add: py_int_def num_value_def)
  have p18: "py_int (num_value (PyFloat (300))) = 300"
    by (simp add: py_int_def num_value_def)
  have p19: "py_int (num_value (PyFloat (200))) = 200"
    by (simp add: py_int_def num_value_def)
  have p20: "py_int (num_value (PyFloat (200))) = 200"
    by (simp add: py_int_def num_value_def)
  have run_int: "parse_yolo_annotation_bbox 0 (1 / 2) (1 / 2) (3602879701896397 / 18014398509481984) (1 / 4) 1000 800
      = Inr (1, 400, 300, 200, 200, 40000)"
    by (simp only: parse_yolo_annotation_bbox_def sum.case p2 p4 p6 p8 p10 p12 p14 p16 p17 p18 p19 p20, simp)
  have "\<exists>x y width height label.
      yolo_to_absolute (0, 1 / 2, 1 / 2, 3602879701896397 / 18014398509481984, 1 / 4) 1000 800 = Inr (x, y, width, height, label)
      \<and> 0 \<le> num_value x \<and> 0 \<le> num_value y
      \<and> num_value x + num_value width \<le> real_of_int 1000 * (1 + 1 / 2 ^ 53)
      \<and> num_value y + num_value height \<le> real_of_int 800 * (1 + 1 / 2 ^ 53)"
    using geometry_within_image_up_to_rounding
      [of "1 / 2" "1 / 2" "3602879701896397 / 18014398509481984" "1 / 4" 1000 800 0 0]
    by simp
  then show ?thesis
    using d run run_int by blast
qed

section \<open>Properties of the schema resolver\<close>

lemma dict_set_keys: "fst ` set (dict_set d k v) = insert k (fst ` set d)"
  by (induction d k v rule: dict_set.induct) auto

lemma dict_set_rename:
  "inj_on f (insert k (fst ` set d)) \<Longrightarrow>
   map (apfst f) (dict_set d k v) = dict_set (map (apfst f) d) (f k) v"
proof (induction d k v rule: dict_set.induct)
  case (1 k v)
  then show ?case by simp
next
  case (2 k' v' d k v)
  have sub: "inj_on f (insert k (fst ` set d))"
    using "2.prems" by (auto intro: inj_on_subset)
  have "f k' = f k \<longleftrightarrow> k' = k"
    using "2.prems" by (auto simp: inj_on_def)
  then show ?case
    using "2.IH" sub by auto
qed

lemma fold_cells_rename:
  "inj_on g (fst ` set d \<union> Some ` fst ` set ps) \<Longrightarrow> (\<And>k. g (Some k) = Some (f k)) \<Longrightarrow>
   map (apfst g) (foldl (\<lambda>d (k, v). dict_set d (Some k) (Str v)) d ps)
   = foldl (\<lambda>d (k, v). dict_set d (Some k) (Str v)) (map (apfst g) d) (map (apfst f) ps)"
proof (induction ps arbitrary: d)
  case Nil
  then show ?case by simp
next
  case (Cons p ps)
  obtain k v where p: "p = (k, v)" by (cases p)
  have inj1: "inj_on g (insert (Some k) (fst ` set d))"
    using Cons.prems(1) p by (auto intro: inj_on_subset)
  have step: "map (apfst g) (dict_set d (Some k) (Str v)) = dict_set (map (apfst g) d) (Some (f k)) (Str v)"
    using dict_set_rename [OF inj1] Cons.prems(2) by simp
  have inj2: "inj_on g (fst ` set (dict_set d (Some k) (Str v)) \<union> Some ` fst ` set ps)"
    using Cons.prems(1) p by (auto simp: dict_set_keys intro: inj_on_subset)
  show ?case
    using Cons.IH [OF inj2 Cons.prems(2)] step p by simp
qed

lemma fold_rest_rename:
  "inj_on g (fst ` set d \<union> Some ` set ks) \<Longrightarrow> (\<And>k. g (Some k) = Some (f k)) \<Longrightarrow>
   map (apfst g) (foldl (\<lambda>d k. dict_set d (Some k) NoneVal) d ks)
   = foldl (\<lambda>d k. dict_set d (Some k) NoneVal) (map (apfst g) d) (map f ks)"
proof (induction ks arbitrary: d)
  case Nil
  then show ?case by simp
next
  case (Cons k ks)
  have inj1: "inj_on g (insert (Some k) (fst ` set d))"
    using Cons.prems(1) by (auto intro: inj_on_subset)
  have step: "map (apfst g) (dict_set d (Some k) NoneVal) = dict_set (map (apfst g) d) (Some (f k)) NoneVal"
    using dict_set_rename [OF inj1] Cons.prems(2) by simp
  have inj2: "inj_on g (fst ` set (dict_set d (Some k) NoneVal) \<union> Some ` set ks)"
    using Cons.prems(1) by (auto simp: dict_set_keys intro: inj_on_subset)
  show ?case
    using Cons.IH [OF inj2 Cons.prems(2)] step by simp
qed

lemma fold_cells_keys:
  "fst ` set (foldl (\<lambda>d (k, v). dict_set d (Some k) (Str v)) d ps) = fst ` set d \<union> Some ` fst ` set ps"
proof (induction ps arbitrary: d)
  case Nil
  then show ?case by simp
next
  case (Cons p ps)
  obtain k v where p: "p = (k, v)" by (cases p)
  have "fst ` set (foldl (\<lambda>d (k, v). dict_set d (Some k) (Str v)) (dict_set d (Some k) (Str v)) ps)
      = insert (Some k) (fst ` set d) \<union> Some ` fst ` set ps"
    unfolding Cons.IH dict_set_keys ..
  then show ?case
    unfolding p by simp
qed

lemma dictreader_row_rename:
  assumes "inj_on f (set fieldnames)"
  shows "map (apfst (map_option f)) (dictreader_row fieldnames row) = dictreader_row (map f fieldnames) row"
proof -
  let ?g = "map_option f"
  let ?d = "foldl (\<lambda>d (k, v). dict_set d (Some k) (Str v)) [] (zip fieldnames row)"
  have inj_g: "inj_on ?g (insert None (Some ` set fieldnames))"
    using assms by (auto simp: inj_on_def)
  have g: "\<And>k. ?g (Some k) = Some (f k)" by simp
  have keys: "fst ` set ?d \<subseteq> Some ` set fieldnames"
    by (auto simp: fold_cells_keys dest: set_zip_leftD)
  have zipmap: "zip (map f fieldnames) row = map (apfst f) (zip fieldnames row)"
    by (simp add: zip_map1 apfst_def map_prod_def)
  have inj0: "inj_on ?g (fst ` set [] \<union> Some ` fst ` set (zip fieldnames row))"
    by (rule inj_on_subset [OF inj_g]) (auto dest: set_zip_leftD)
  have d: "map (apfst ?g) ?d
      = foldl (\<lambda>d (k, v). dict_set d (Some k) (Str v)) [] (zip (map f fieldnames) row)"
    unfolding zipmap using fold_cells_rename [OF inj0 g] by simp
  have inj1: "inj_on ?g (insert None (fst ` set ?d))"
    by (rule inj_on_subset [OF inj_g]) (use keys in auto)
  have r1: "map (apfst ?g) (dict_set ?d None (Lst (drop (length fieldnames) row)))
      = dict_set (map (apfst ?g) ?d) None (Lst (drop (length fieldnames) row))"
    using dict_set_rename [OF inj1] by simp
  have inj2: "inj_on ?g (fst ` set ?d \<union> Some ` set (drop (length row) fieldnames))"
    by (rule inj_on_subset [OF inj_g]) (use keys in \<open>auto dest: in_set_dropD\<close>)
  have r2: "map (apfst ?g) (foldl (\<lambda>d k. dict_set d (Some k) NoneVal) ?d (drop (length row) fieldnames))
      = foldl (\<lambda>d k. dict_set d (Some k) NoneVal) (map (apfst ?g) ?d) (map f (drop (length row) fieldnames))"
    using fold_rest_rename [OF inj2 g] by simp
  show ?thesis
    unfolding dictreader_row_def Let_def using d r1 r2 by (simp add: drop_map)
qed

lemma lower_keys_cong:
  "map (apfst (map_option lower)) d = map (apfst (map_option lower)) d' \<Longrightarrow>
   lower_keys d acc = lower_keys d' acc"
proof (induction d acc arbitrary: d' rule: lower_keys.induct)
  case (1 row_lower)
  then show ?case by simp
next
  case (2 v items row_lower)
  then obtain v' items' where "d' = (None, v') # items'"
    by (cases d') (auto simp: apfst_def map_prod_def split: prod.splits)
  then show ?case by simp
next
  case (3 k v items row_lower)
  from "3.prems" obtain p items' where d': "d' = p # items'"
    by (cases d') auto
  obtain kk v' where p: "p = (kk, v')" by (cases p)
  from "3.prems" d' p have kk: "map_option lower kk = Some (lower k)" and v': "v' = v"
    and rest: "map (apfst (map_option lower)) items = map (apfst (map_option lower)) items'"
    by simp_all
  from kk obtain k' where k': "kk = Some k'" "lower k' = lower k"
    by (cases kk) auto
  show ?case
    using "3.IH" [OF rest] d' p k' v' by simp
qed

lemma parse_rows_rename:
  assumes "map lower fs = map lower fs'" and "distinct (map lower fs)"
  shows "parse_rows pf fs rows boxes = parse_rows pf fs' rows boxes"
proof -
  have i1: "inj_on lower (set fs)"
    using assms(2) by (simp add: distinct_map)
  have i2: "inj_on lower (set fs')"
    using assms by (simp add: distinct_map)
  have row: "lower_keys (dictreader_row fs r) [] = lower_keys (dictreader_row fs' r) []" for r
    using dictreader_row_rename [OF i1, of r] dictreader_row_rename [OF i2, of r] assms(1)
    by (intro lower_keys_cong) simp
  have prow: "parse_row pf (dictreader_row fs r) b = parse_row pf (dictreader_row fs' r) b" for r b
    by (simp add: parse_row_def row)
  show ?thesis
    by (induction rows arbitrary: boxes) (auto simp: prow split: sum.splits)
qed

text \<open>
  Claim C8, as stated, fails when the header repeats a column name in different letter case:
  \<^verbatim>\<open>X,x,X,y,w,h\<close> with the row \<^verbatim>\<open>1,2,3,0,5,5\<close> resolves \<open>x = 2\<close> (the row dictionary keeps
  \<^verbatim>\<open>X\<close> before \<^verbatim>\<open>x\<close>, so \<^verbatim>\<open>x\<close> is lowered last), while the same header written \<^verbatim>\<open>x,x,x,y,w,h\<close>
  resolves \<open>x = 3\<close>.
\<close>

theorem resolver_case_counterexample:
  "map lower [''X'', ''x'', ''X'', ''y'', ''w'', ''h''] = map lower [''x'', ''x'', ''x'', ''y'', ''w'', ''h'']
   \<and> parse_csv_boxes float_of_digits
         (Rows [[''X'', ''x'', ''X'', ''y'', ''w'', ''h''], [''1'', ''2'', ''3'', ''0'', ''5'', ''5'']])
     \<noteq> parse_csv_boxes float_of_digits
         (Rows [[''x'', ''x'', ''x'', ''y'', ''w'', ''h''], [''1'', ''2'', ''3'', ''0'', ''5'', ''5'']])"
  by code_simp

text \<open>
  Claim C8, amended. For a header whose column names are pairwise different when compared
  without regard to letter case, the schema resolver produces the same result (the same list of
  boxes, or the same error) when any column names are changed only in letter case.
\<close>

theorem resolver_case_insensitive:
  assumes "map lower fieldnames = map lower fieldnames'"
    and "distinct (map lower fieldnames)"
  shows "parse_csv_boxes pyfloat (Rows (fieldnames # rows))
       = parse_csv_boxes pyfloat (Rows (fieldnames' # rows))"
  using parse_rows_rename [OF assms] by (simp add: parse_csv_boxes_def)

theorem resolver_case_insensitive_witness:
  "map lower [''X'', ''Yc'', ''WIDTH'', ''dy''] = map lower [''x'', ''yc'', ''width'', ''Dy'']
   \<and> distinct (map lower [''X'', ''Yc'', ''WIDTH'', ''dy''])
   \<and> parse_csv_boxes float_of_digits (Rows ([''X'', ''Yc'', ''WIDTH'', ''dy''] # [[''1'', ''2'', ''3'', ''4'']]))
     = parse_csv_boxes float_of_digits (Rows ([''x'', ''yc'', ''width'', ''Dy''] # [[''1'', ''2'', ''3'', ''4'']]))
   \<and> parse_csv_boxes float_of_digits (Rows ([''x'', ''yc'', ''width'', ''Dy''] # [[''1'', ''2'', ''3'', ''4'']]))
     = Inr [\<lparr>box_x = 1, box_y = 2, box_width = 3, box_height = 4\<rparr>]"
proof -
  have h1: "map lower [''X'', ''Yc'', ''WIDTH'', ''dy''] = map lower [''x'', ''yc'', ''width'', ''Dy'']"
    by code_simp
  have h2: "distinct (map lower [''X'', ''Yc'', ''WIDTH'', ''dy''])"
    by code_simp
  have v: "parse_csv_boxes float_of_digits (Rows ([''x'', ''yc'', ''width'', ''Dy''] # [[''1'', ''2'', ''3'', ''4'']]))
     = Inr [\<lparr>box_x = 1, box_y = 2, box_width = 3, box_height = 4\<rparr>]"
    by code_simp
  show ?thesis
    using h1 h2 v resolver_case_insensitive [OF h1 h2, of float_of_digits "[[''1'', ''2'', ''3'', ''4'']]"]
    by blast
qed

text \<open>
  Claim C9, as stated, fails for a file that exists and cannot be opened: \<^verbatim>\<open>csv_path.exists()\<close>
  holds, \<^verbatim>\<open>csv_path.open\<close> raises, and the caller observes the error, not an empty list.
\<close>

theorem resolver_unreadable_counterexample:
  "parse_csv_boxes float_of_digits Unreadable \<noteq> Inr []"
  by (simp add: parse_csv_boxes_def)

text \<open>
  Claim C9, amended. When the tabular box source file is missing, or is present and has no row
  at all, the schema resolver returns an empty box list; when the file is present and cannot be
  opened the error is raised to the caller.
\<close>

theorem resolver_missing_file_empty:
  "parse_csv_boxes pyfloat Missing = Inr []
   \<and> parse_csv_boxes pyfloat (Rows []) = Inr []
   \<and> parse_csv_boxes pyfloat Unreadable = Inl OSError"
  by (simp add: parse_csv_boxes_def)

section \<open>Properties of the record assembler\<close>

lemma add_annotations_eq:
  "add_annotations boxes j a anns
   = (a + length boxes, anns @ map (\<lambda>(k, b). make_annotation k j b) (enumerate a boxes))"
  by (induction boxes arbitrary: a anns) simp_all

lemma upt_shift: "[a..<a + Suc n] = a # [Suc a..<Suc a + n]"
  by (simp add: upt_conv_Cons)

lemma ann_id_enumerate:
  "map ann_id (map (\<lambda>(k, b). make_annotation k j b) (enumerate a boxes)) = [a..<a + length boxes]"
proof (induction boxes arbitrary: a)
  case Nil
  then show ?case by simp
next
  case (Cons b boxes)
  show ?case
    using Cons.IH [of "Suc a"] upt_shift [of a "length boxes"]
    by (simp add: make_annotation_def)
qed

lemma ann_pair_enumerate:
  "map (\<lambda>x. (ann_image_id x, ann_bbox x)) (map (\<lambda>(k, b). make_annotation k j b) (enumerate a boxes))
   = map (\<lambda>b. (j, [box_x b, box_y b, box_width b, box_height b])) boxes"
  by (induction boxes arbitrary: a) (simp_all add: make_annotation_def)

lemma collect_loop_images:
  "collect_loop pf R stems i a imgs anns = Inr (imgs', anns') \<Longrightarrow>
   length imgs' = length imgs + length (filter (\<lambda>s. find_image R s \<noteq> None) stems)
   \<and> map img_id imgs' = map img_id imgs @ [i..<i + length (filter (\<lambda>s. find_image R s \<noteq> None) stems)]
   \<and> map img_file_name imgs'
     = map img_file_name imgs
       @ map (\<lambda>s. dir_name R @ ''/images/'' @ the (find_image R s))
           (filter (\<lambda>s. find_image R s \<noteq> None) stems)"
proof (induction stems arbitrary: i a imgs anns)
  case Nil
  then show ?case by simp
next
  case (Cons s stems)
  show ?case
  proof (cases "find_image R s")
    case None
    then show ?thesis
      using Cons.IH [of i a imgs anns] Cons.prems by simp
  next
    case (Some n)
    from Cons.prems Some obtain w h bs where
      sz: "image_size (image_at R n) = Inr (w, h)" and
      bx: "parse_csv_boxes pf (csv_at R (s @ ''.csv'')) = Inr bs" and
      rec: "collect_loop pf R stems (i + 1) (fst (add_annotations bs i a anns))
              (imgs @ [\<lparr>img_id = i, img_file_name = dir_name R @ ''/images/'' @ n,
                         img_width = w, img_height = h\<rparr>])
              (snd (add_annotations bs i a anns)) = Inr (imgs', anns')"
      by (auto split: sum.splits prod.splits)
    show ?thesis
      using Cons.IH [OF rec] Some upt_shift [of i "length (filter (\<lambda>s. find_image R s \<noteq> None) stems)"]
      by simp
  qed
qed

lemma collect_loop_anns:
  "collect_loop pf R stems i a imgs anns = Inr (imgs', anns') \<Longrightarrow>
   length anns \<le> length anns'
   \<and> map ann_id anns' = map ann_id anns @ [a..<a + (length anns' - length anns)]
   \<and> map (\<lambda>x. (ann_image_id x, ann_bbox x)) anns'
     = map (\<lambda>x. (ann_image_id x, ann_bbox x)) anns
       @ concat (map (\<lambda>(j, s). map (\<lambda>b. (j, [box_x b, box_y b, box_width b, box_height b]))
                                 (projr (parse_csv_boxes pf (csv_at R (s @ ''.csv'')))))
                   (enumerate i (filter (\<lambda>s. find_image R s \<noteq> None) stems)))"
proof (induction stems arbitrary: i a imgs anns)
  case Nil
  then show ?case by simp
next
  case (Cons s stems)
  show ?case
  proof (cases "find_image R s")
    case None
    then show ?thesis
      using Cons.IH [of i a imgs anns] Cons.prems by simp
  next
    case (Some n)
    from Cons.prems Some obtain w h bs where
      sz: "image_size (image_at R n) = Inr (w, h)" and
      bx: "parse_csv_boxes pf (csv_at R (s @ ''.csv'')) = Inr bs" and
      rec: "collect_loop pf R stems (i + 1) (a + length bs)
              (imgs @ [\<lparr>img_id = i, img_file_name = dir_name R @ ''/images/'' @ n,
                         img_width = w, img_height = h\<rparr>])
              (anns @ map (\<lambda>(k, b). make_annotation k i b) (enumerate a bs)) = Inr (imgs', anns')"
      by (auto simp: add_annotations_eq split: sum.splits prod.splits)
    note ih = Cons.IH [OF rec]
    have len: "length anns + length bs \<le> length anns'"
      using ih by simp
    have ids: "map ann_id anns' = map ann_id anns @ [a..<a + length bs]
        @ [a + length bs..<a + length bs + (length anns' - (length anns + length bs))]"
      using ih by (simp add: ann_id_enumerate del: map_map)
    have "[a..<a + length bs] @ [a + length bs..<a + length bs + (length anns' - (length anns + length bs))]
        = [a..<a + (length anns' - length anns)]"
      using len upt_add_eq_append [of a "a + length bs" "length anns' - (length anns + length bs)"]
      by simp
    with ids have ids': "map ann_id anns' = map ann_id anns @ [a..<a + (length anns' - length anns)]"
      by simp
    have pairs: "map (\<lambda>x. (ann_image_id x, ann_bbox x)) anns'
     = map (\<lambda>x. (ann_image_id x, ann_bbox x)) anns
       @ concat (map (\<lambda>(j, s). map (\<lambda>b. (j, [box_x b, box_y b, box_width b, box_height b]))
                                 (projr (parse_csv_boxes pf (csv_at R (s @ ''.csv'')))))
                   (enumerate i (filter (\<lambda>s. find_image R s \<noteq> None) (s # stems))))"
      using ih Some bx by (simp add: ann_pair_enumerate del: map_map)
    show ?thesis
      using len ids' pairs by simp
  qed
qed






text \<open>
  Claim C6. In an assembled Collection the image identifiers are \<open>1, 2, ...\<close> in list order and
  the annotation identifiers are \<open>1, 2, ...\<close> in list order, each from its own counter, so both
  sequences are strictly increasing and without repetition. The images are those of the stems,
  taken in lexicographic order, that have an image file; the annotations, in identifier order,
  are the boxes of the first image in the order they were parsed, then those of the second
  image, and so on.
\<close>

theorem collection_ids_monotonic:
  assumes "collect_annotations_for_split pyfloat category_root split = Inr (images, anns, categories)"
  shows "map img_id images = [1..<Suc (length images)]
       \<and> sorted_wrt (<) (map img_id images) \<and> distinct (map img_id images)
       \<and> map ann_id anns = [1..<Suc (length anns)]
       \<and> sorted_wrt (<) (map ann_id anns) \<and> distinct (map ann_id anns)
       \<and> map img_file_name images
         = map (\<lambda>stem. dir_name category_root @ ''/images/'' @ the (find_image category_root stem))
             (filter (\<lambda>stem. find_image category_root stem \<noteq> None)
                (sorted_list_of_set (image_stems category_root split)))
       \<and> map (\<lambda>a. (ann_image_id a, ann_bbox a)) anns
         = concat (map (\<lambda>(i, stem). map (\<lambda>b. (i, [box_x b, box_y b, box_width b, box_height b]))
                          (projr (parse_csv_boxes pyfloat (csv_at category_root (stem @ ''.csv'')))))
                    (enumerate 1 (filter (\<lambda>stem. find_image category_root stem \<noteq> None)
                       (sorted_list_of_set (image_stems category_root split)))))"
proof -
  have run: "collect_loop pyfloat category_root (sorted_list_of_set (image_stems category_root split))
      1 1 [] [] = Inr (images, anns)"
    using assms(1) by (auto simp: collect_annotations_for_split_def split: sum.splits)
  let ?found = "filter (\<lambda>stem. find_image category_root stem \<noteq> None)
                (sorted_list_of_set (image_stems category_root split))"
  have len: "length images = length ?found"
    and i1: "map img_id images = [1..<1 + length ?found]"
    and i2: "map img_file_name images
         = map (\<lambda>stem. dir_name category_root @ ''/images/'' @ the (find_image category_root stem)) ?found"
    using collect_loop_images [OF run] by simp_all
  have a1: "map ann_id anns = [1..<1 + length anns]"
    and a2: "map (\<lambda>a. (ann_image_id a, ann_bbox a)) anns
         = concat (map (\<lambda>(i, stem). map (\<lambda>b. (i, [box_x b, box_y b, box_width b, box_height b]))
                          (projr (parse_csv_boxes pyfloat (csv_at category_root (stem @ ''.csv'')))))
                    (enumerate 1 ?found))"
    using collect_loop_anns [OF run] by simp_all
  have s1: "sorted_wrt (<) (map img_id images)" "distinct (map img_id images)"
    unfolding i1 by (rule sorted_wrt_upt, rule distinct_upt)
  have s2: "sorted_wrt (<) (map ann_id anns)" "distinct (map ann_id anns)"
    unfolding a1 by (rule sorted_wrt_upt, rule distinct_upt)
  show ?thesis
    using i1 i2 a1 a2 s1 s2 len by simp
qed

theorem collection_ids_monotonic_witness:
  "collect_annotations_for_split float_of_digits
       \<lparr>dir_name = ''grapes'',
        sets_file = (\<lambda>name. if name = ''train.txt'' then Some [''b'', ''a'', ''c''] else None),
        jpg_glob = [''a'', ''b'', ''d''], png_glob = [],
        image_at = (\<lambda>name. if name = ''a.jpg'' then Picture 100 100
                    else if name = ''b.png'' then Picture 50 40 else NoFile),
        csv_at = (\<lambda>name. if name = ''a.csv''
                   then Rows [[''x'', ''y'', ''width'', ''height''], [''5'', ''0'', ''10'', ''10''],
                              [''1'', ''2'', ''3'', ''4'']]
                   else if name = ''b.csv'' then Rows [[''X'', ''Y'', ''W'', ''H''], [''1'', ''1'', ''1'', ''1'']]
                   else Missing)\<rparr> ''train''
   = Inr ([\<lparr>img_id = 1, img_file_name = ''grapes/images/a.jpg'', img_width = 100, img_height = 100\<rparr>,
           \<lparr>img_id = 2, img_file_name = ''grapes/images/b.png'', img_width = 50, img_height = 40\<rparr>],
          [\<lparr>ann_id = 1, ann_image_id = 1, ann_category_id = 1, ann_bbox = [5, 0, 10, 10],
            ann_area = 100, ann_iscrowd = 0\<rparr>,
           \<lparr>ann_id = 2, ann_image_id = 1, ann_category_id = 1, ann_bbox = [1, 2, 3, 4],
            ann_area = 12, ann_iscrowd = 0\<rparr>,
           \<lparr>ann_id = 3, ann_image_id = 2, ann_category_id = 1, ann_bbox = [1, 1, 1, 1],
            ann_area = 1, ann_iscrowd = 0\<rparr>],
          [\<lparr>cat_id = 1, cat_name = ''grape'', cat_supercategory = ''fruit''\<rparr>])
   \<and> map img_id
         [\<lparr>img_id = 1, img_file_name = ''grapes/images/a.jpg'', img_width = 100, img_height = 100\<rparr>,
          \<lparr>img_id = 2, img_file_name = ''grapes/images/b.png'', img_width = 50, img_height = 40\<rparr>]
       = [1..<Suc (length
         [\<lparr>img_id = 1, img_file_name = ''grapes/images/a.jpg'', img_width = 100, img_height = 100\<rparr>,
          \<lparr>img_id = 2, img_file_name = ''grapes/images/b.png'', img_width = 50, img_height = 40\<rparr>])]
   \<and> map ann_id
         [\<lparr>ann_id = 1, ann_image_id = 1, ann_category_id = 1, ann_bbox = [5, 0, 10, 10],
            ann_area = 100, ann_iscrowd = 0\<rparr>,
          \<lparr>ann_id = 2, ann_image_id = 1, ann_category_id = 1, ann_bbox = [1, 2, 3, 4],
            ann_area = 12, ann_iscrowd = 0\<rparr>,
          \<lparr>ann_id = 3, ann_image_id = 2, ann_category_id = 1, ann_bbox = [1, 1, 1, 1],
            ann_area = 1, ann_iscrowd = 0\<rparr>]
       = [1..<Suc (length
         [\<lparr>ann_id = 1, ann_image_id = 1, ann_category_id = 1, ann_bbox = [5, 0, 10, 10],
            ann_area = 100, ann_iscrowd = 0\<rparr>,
          \<lparr>ann_id = 2, ann_image_id = 1, ann_category_id = 1, ann_bbox = [1, 2, 3, 4],
            ann_area = 12, ann_iscrowd = 0\<rparr>,
          \<lparr>ann_id = 3, ann_image_id = 2, ann_category_id = 1, ann_bbox = [1, 1, 1, 1],
            ann_area = 1, ann_iscrowd = 0\<rparr>])]"
proof -
  have run: "collect_annotations_for_split float_of_digits
       \<lparr>dir_name = ''grapes'',
        sets_file = (\<lambda>name. if name = ''train.txt'' then Some [''b'', ''a'', ''c''] else None),
        jpg_glob = [''a'', ''b'', ''d''], png_glob = [],
        image_at = (\<lambda>name. if name = ''a.jpg'' then Picture 100 100
                    else if name = ''b.png'' then Picture 50 40 else NoFile),
        csv_at = (\<lambda>name. if name = ''a.csv''
                   then Rows [[''x'', ''y'', ''width'', ''height''], [''5'', ''0'', ''10'', ''10''],
                              [''1'', ''2'', ''3'', ''4'']]
                   else if name = ''b.csv'' then Rows [[''X'', ''Y'', ''W'', ''H''], [''1'', ''1'', ''1'', ''1'']]
                   else Missing)\<rparr> ''train''
   = Inr ([\<lparr>img_id = 1, img_file_name = ''grapes/images/a.jpg'', img_width = 100, img_height = 100\<rparr>,
           \<lparr>img_id = 2, img_file_name = ''grapes/images/b.png'', img_width = 50, img_height = 40\<rparr>],
          [\<lparr>ann_id = 1, ann_image_id = 1, ann_category_id = 1, ann_bbox = [5, 0, 10, 10],
            ann_area = 100, ann_iscrowd = 0\<rparr>,
           \<lparr>ann_id = 2, ann_image_id = 1, ann_category_id = 1, ann_bbox = [1, 2, 3, 4],
            ann_area = 12, ann_iscrowd = 0\<rparr>,
           \<lparr>ann_id = 3, ann_image_id = 2, ann_category_id = 1, ann_bbox = [1, 1, 1, 1],
            ann_area = 1, ann_iscrowd = 0\<rparr>],
          [\<lparr>cat_id = 1, cat_name = ''grape'', cat_supercategory = ''fruit''\<rparr>])"
    by code_simp
  show ?thesis
    using run collection_ids_monotonic [OF run] by blast
qed

section \<open>Properties of the split allocator\<close>

lemma finite_read_names: "finite (read_names f)"
  by (cases f) (simp_all add: read_names_def)

lemma sort_distinct_eq_sorted_list_of_set:
  "distinct xs \<Longrightarrow> sort xs = sorted_list_of_set (set xs)"
  by (simp add: sorted_list_of_set_sort_remdups distinct_remdups_id)

text \<open>
  Claim C5. For every content of the two declared lists (a missing or an empty file included)
  train, val and test are pairwise disjoint, and \<open>train_val\<close> is the sorted union of train and val.
\<close>

theorem split_sets_disjoint:
  "set (train_final (organize_sets trf tef stems)) \<inter> set (val_list (organize_sets trf tef stems)) = {}
   \<and> set (train_final (organize_sets trf tef stems)) \<inter> test_images (organize_sets trf tef stems) = {}
   \<and> set (val_list (organize_sets trf tef stems)) \<inter> test_images (organize_sets trf tef stems) = {}
   \<and> train_val (organize_sets trf tef stems) =
       sorted_list_of_set (set (train_final (organize_sets trf tef stems))
                           \<union> set (val_list (organize_sets trf tef stems)))"
proof -
  define cand where "cand = sorted_list_of_set (read_names trf - read_names tef)"
  define k where "k = max 1 (nat \<lfloor>real (length cand) * 0.2\<rfloor>)"
  have fin: "finite (read_names trf - read_names tef)"
    by (simp add: finite_read_names)
  have dist: "distinct cand"
    unfolding cand_def by simp
  have cand_set: "set cand = read_names trf - read_names tef"
    unfolding cand_def using fin by simp
  have tr: "train_final (organize_sets trf tef stems) = drop k cand"
    and va: "val_list (organize_sets trf tef stems) = take k cand"
    and te: "test_images (organize_sets trf tef stems) = read_names tef"
    and tv: "train_val (organize_sets trf tef stems) = sort (drop k cand @ take k cand)"
    by (simp_all add: organize_sets_def Let_def cand_def k_def)
  have d1: "set (drop k cand) \<inter> set (take k cand) = {}"
    using dist by (metis Int_commute append_take_drop_id distinct_append)
  have sub1: "set (drop k cand) \<subseteq> set cand" and sub2: "set (take k cand) \<subseteq> set cand"
    by (simp_all add: set_drop_subset set_take_subset)
  have d2: "set (drop k cand) \<inter> read_names tef = {}"
    using sub1 cand_set by auto
  have d3: "set (take k cand) \<inter> read_names tef = {}"
    using sub2 cand_set by auto
  have "distinct (drop k cand @ take k cand)"
    using dist d1 by simp
  then have d4: "sort (drop k cand @ take k cand)
      = sorted_list_of_set (set (drop k cand) \<union> set (take k cand))"
    using sort_distinct_eq_sorted_list_of_set [of "drop k cand @ take k cand"] by simp
  show ?thesis
    unfolding tr va te tv using d1 d2 d3 d4 by simp
qed

lemma floor_fifth: "nat \<lfloor>real n * 0.2\<rfloor> = n div 5"
proof -
  have "real n * 0.2 = real n / real 5" by simp
  then have "\<lfloor>real n * 0.2\<rfloor> = int (n div 5)"
    by (simp only: floor_divide_of_nat_eq)
  then show ?thesis by simp
qed

text \<open>
  Claim C3, as stated, fails: with six candidates \<open>A\<close> .. \<open>F\<close> and no test names the claim
  asks for a validation prefix of length \<open>ceil(0.2 \<times> 6) = 2\<close>, while
  \<^verbatim>\<open>max(1, int(len(train_list) * 0.2))\<close> is \<open>1\<close> and \<open>val\<close> is \<open>[A]\<close>.
\<close>

theorem split_val_ceil_counterexample:
  "val_list (organize_sets (Some [''A'', ''B'', ''C'', ''D'', ''E'', ''F'']) None []) \<noteq>
     take (nat \<lceil>0.2 * real (card (read_names (Some [''A'', ''B'', ''C'', ''D'', ''E'', ''F''])
                                      - read_names None))\<rceil>)
       (sorted_list_of_set (read_names (Some [''A'', ''B'', ''C'', ''D'', ''E'', ''F''])
                            - read_names None))"
  by code_simp

text \<open>
  Claim C3, amended. The candidates \<open>declared_train - declared_test\<close> are sorted
  lexicographically; \<open>val\<close> is their prefix of length \<open>max(1, floor(0.2 \<times> n))\<close> for \<open>n\<close> candidates
  (the whole list when it is shorter, so it is empty exactly when there is no candidate and has
  at least one name otherwise), and \<open>train\<close> is the remainder. For declared_train
  \<open>{A,B,C,D,E}\<close> and declared_test \<open>{E}\<close>, \<open>val = [A]\<close> and \<open>train = [B,C,D]\<close>.
\<close>

theorem split_val_prefix_floor:
  "val_list (organize_sets trf tef stems)
     = take (max 1 (nat \<lfloor>0.2 * real (card (read_names trf - read_names tef))\<rfloor>))
         (sorted_list_of_set (read_names trf - read_names tef))
   \<and> train_final (organize_sets trf tef stems)
     = drop (max 1 (nat \<lfloor>0.2 * real (card (read_names trf - read_names tef))\<rfloor>))
         (sorted_list_of_set (read_names trf - read_names tef))
   \<and> length (val_list (organize_sets trf tef stems))
     = min (card (read_names trf - read_names tef))
         (max 1 (card (read_names trf - read_names tef) div 5))
   \<and> val_list (organize_sets (Some [''C'', ''A'', ''E'', ''B'', ''D'']) (Some [''E'']) []) = [''A'']
   \<and> train_final (organize_sets (Some [''C'', ''A'', ''E'', ''B'', ''D'']) (Some [''E'']) [])
     = [''B'', ''C'', ''D'']"
proof -
  define C where "C = read_names trf - read_names tef"
  have fl: "nat \<lfloor>0.2 * real (card C)\<rfloor> = card C div 5"
    using floor_fifth [of "card C"] by (simp add: mult.commute)
  have va: "val_list (organize_sets trf tef stems)
      = take (max 1 (nat \<lfloor>0.2 * real (card C)\<rfloor>)) (sorted_list_of_set C)"
    by (simp add: organize_sets_def Let_def C_def mult.commute)
  have tr: "train_final (organize_sets trf tef stems)
      = drop (max 1 (nat \<lfloor>0.2 * real (card C)\<rfloor>)) (sorted_list_of_set C)"
    by (simp add: organize_sets_def Let_def C_def mult.commute)
  have ln: "length (val_list (organize_sets trf tef stems)) = min (card C) (max 1 (card C div 5))"
    unfolding va fl by (simp add: min.commute)
  have e1: "val_list (organize_sets (Some [''C'', ''A'', ''E'', ''B'', ''D'']) (Some [''E'']) [])
     = [''A'']"
    by code_simp
  have e2: "train_final (organize_sets (Some [''C'', ''A'', ''E'', ''B'', ''D'']) (Some [''E'']) [])
     = [''B'', ''C'', ''D'']"
    by code_simp
  show ?thesis
    using va tr ln e1 e2 unfolding C_def by blast
qed

section \<open>Properties of the mask reducer\<close>




text \<open>
  Claim C4, as stated, fails: for the policy name \<^verbatim>\<open>median\<close> the \<^verbatim>\<open>ValueError\<close> is raised inside the
  \<^verbatim>\<open>try\<close> block and caught by \<^verbatim>\<open>except Exception\<close>; the call returns \<^verbatim>\<open>False\<close> to its caller and no
  error is raised.
\<close>

theorem unknown_policy_counterexample:
  "convert_npz_to_png (Some \<lparr>mask_height = 2, mask_width = 2, mask_channels = 3,
              mask_at = (\<lambda>i j k. if k = 0 then (if i = 0 \<and> j = 0 then 1 else 0)
                                   else if k = 1 then (if i = 0 then 1 else 0)
                                   else (if j = 0 then 1 else 0))\<rparr>) True ''median''
     \<noteq> Inl ValueError
   \<and> convert_npz_to_png (Some \<lparr>mask_height = 2, mask_width = 2, mask_channels = 3,
              mask_at = (\<lambda>i j k. if k = 0 then (if i = 0 \<and> j = 0 then 1 else 0)
                                   else if k = 1 then (if i = 0 then 1 else 0)
                                   else (if j = 0 then 1 else 0))\<rparr>) True ''median''
     = Inr \<lparr>returned = False, saved_png = None\<rparr>"
  by (simp add: convert_npz_to_png_def try_convert_def merged_mask_def)

text \<open>
  Claim C4, amended. With a policy name other than \<^verbatim>\<open>merge\<close>, \<^verbatim>\<open>first\<close> and \<^verbatim>\<open>max\<close> the reduction
  of a loaded array raises \<^verbatim>\<open>ValueError\<close> and there is no fallback to a default policy; the
  mask reducer catches the error itself, saves no image and returns \<^verbatim>\<open>False\<close> to its caller.
\<close>

theorem unknown_policy_returns_false:
  assumes "method \<noteq> ''merge''" and "method \<noteq> ''first''" and "method \<noteq> ''max''"
  shows "merged_mask method m = Inl ValueError
       \<and> convert_npz_to_png npz png_writable method = Inr \<lparr>returned = False, saved_png = None\<rparr>"
  using assms
  by (cases npz) (simp_all add: convert_npz_to_png_def try_convert_def merged_mask_def)

theorem unknown_policy_returns_false_witness:
  "''median'' \<noteq> ''merge'' \<and> ''median'' \<noteq> ''first'' \<and> ''median'' \<noteq> ''max''
   \<and> merged_mask ''median'' \<lparr>mask_height = 2, mask_width = 2, mask_channels = 3,
              mask_at = (\<lambda>i j k. if k = 0 then (if i = 0 \<and> j = 0 then 1 else 0)
                                   else if k = 1 then (if i = 0 then 1 else 0)
                                   else (if j = 0 then 1 else 0))\<rparr> = Inl ValueError
   \<and> convert_npz_to_png (Some \<lparr>mask_height = 2, mask_width = 2, mask_channels = 3,
              mask_at = (\<lambda>i j k. if k = 0 then (if i = 0 \<and> j = 0 then 1 else 0)
                                   else if k = 1 then (if i = 0 then 1 else 0)
                                   else (if j = 0 then 1 else 0))\<rparr>) True ''median''
     = Inr \<lparr>returned = False, saved_png = None\<rparr>"
proof -
  have h1: "''median'' \<noteq> ''merge''" and h2: "''median'' \<noteq> ''first''" and h3: "''median'' \<noteq> ''max''"
    by simp_all
  show ?thesis
    using h1 h2 h3 unknown_policy_returns_false [OF h1 h2 h3] by blast
qed




section \<open>Properties of the berry-count enrichment\<close>





end
